theory Spec2Isabelle
  imports Main
begin

section \<open>Leveling engine: level lookup\<close>

text \<open>
  \<^verbatim>\<open>getLevelFromXp(xp)\<close> of app.js scans a fixed table from its last index down to
  index 0 and returns \<open>i + 1\<close> at the first index whose threshold is at most \<open>xp\<close>;
  it returns 1 when the scan finds nothing.

  The argument is a JavaScript number. Experience points are integers wherever the
  application produces them (\<^verbatim>\<open>parseInt\<close>), so a number is an \<open>int\<close> here;
  \<open>None\<close> stands for \<^verbatim>\<open>undefined\<close> and \<^verbatim>\<open>NaN\<close>, for which every
  comparison \<^verbatim>\<open>xp >= t\<close> is false.
\<close>

definition thresholds :: "int list" where
  "thresholds =
     [0, 300, 900, 2700, 6500, 14000, 23000, 34000, 48000, 64000,
      85000, 100000, 120000, 140000, 165000, 195000, 225000,
      265000, 305000, 355000]"

definition js_ge :: "int option \<Rightarrow> int \<Rightarrow> bool" where
  "js_ge x t = (case x of None \<Rightarrow> False | Some v \<Rightarrow> t \<le> v)"

text \<open>
  The loop \<^verbatim>\<open>for (let i = ts.length - 1; i >= 0; i--)\<close>; the argument \<open>k\<close> is
  \<open>i + 1\<close>, so that \<open>k = 0\<close> is the loop's exit with \<open>i = -1\<close>.
\<close>

fun level_scan :: "int list \<Rightarrow> int option \<Rightarrow> nat \<Rightarrow> nat" where
  "level_scan ts xp 0 = 1"
| "level_scan ts xp (Suc i) =
     (if js_ge xp (ts ! i) then i + 1 else level_scan ts xp i)"

definition getLevelFromXp :: "int option \<Rightarrow> nat" where
  "getLevelFromXp xp = level_scan thresholds xp (length thresholds)"

section \<open>Application state\<close>

text \<open>
  The state is one JavaScript object, read from and written to local storage as JSON.
  A key of the object may be absent (\<^verbatim>\<open>undefined\<close>), and the code tests for that,
  so every collection is an \<open>option\<close>: \<open>None\<close> is an absent key. Identifiers are
  strings; \<^verbatim>\<open>null\<close> is \<open>None\<close>. Records list the fields the modelled functions
  read or write.
\<close>

datatype error = TypeError

record user =
  user_id :: string
  username :: string

record campaign =
  campaign_id :: string
  campaign_name :: string
  ownerId :: "string option"

text \<open>A time-slot option of a proposal: four strings typed into the proposal form.\<close>

record slot =
  date :: string
  start :: string
  slot_end :: string
  location :: "string option"

text \<open>The vote buckets of one option; the entries are values of \<^verbatim>\<open>state.currentUserId\<close>.\<close>

record buckets =
  yes :: "string option list"
  maybe :: "string option list"
  no :: "string option list"

datatype vote_type = VoteYes | VoteMaybe | VoteNo

text \<open>
  \<^verbatim>\<open>proposal.votes\<close> is an array with one bucket object per option; an entry can be
  missing (a hole, \<^verbatim>\<open>undefined\<close> or \<^verbatim>\<open>null\<close>), which is \<open>None\<close>.
\<close>

record proposal =
  proposal_id :: string
  p_campaignId :: string
  finalized :: bool
  finalChoiceIndex :: "nat option"
  options :: "slot list"
  votes :: "buckets option list"

text \<open>
  The local-time fields that the getters of a \<^verbatim>\<open>Date\<close> return. An invalid date,
  whose getters all return \<^verbatim>\<open>NaN\<close>, is \<open>None\<close>.
\<close>

record local_time =
  year :: int
  month :: int
  day_of_month :: int
  hours :: int
  minutes :: int
  seconds :: int

text \<open>
  The \<^verbatim>\<open>datetime\<close> of a session is a \<^verbatim>\<open>Date\<close> object while it is in memory and
  a string once it has been through storage.
\<close>

datatype js_datetime = DateObject "local_time option" | DateString string

record session =
  session_id :: string
  datetime :: js_datetime
  s_campaignId :: string
  session_end :: "string option"
  s_location :: "string option"

datatype ability = Ab_str | Ab_dex | Ab_con | Ab_int | Ab_wis | Ab_cha

record character =
  character_id :: string
  character_name :: string
  classIndex :: "string option"
  level :: int
  xp :: int
  hp :: "int option"
  hitDie :: "int option"
  abilityScores :: "ability \<Rightarrow> int"
  features :: "string list option"

datatype crit_flag = Success | Failure

record roll_entry =
  entry_id :: string
  timestamp :: int
  r_userId :: string
  userName :: string
  expression :: string
  label :: string
  result :: int
  details :: string
  crit :: "crit_flag option"
  r_campaignId :: "string option"

record state =
  users :: "user list option"
  campaigns :: "campaign list option"
  sessions :: "session list option"
  proposals :: "proposal list option"
  characters :: "character list option"
  rolls :: "roll_entry list option"
  currentUserId :: "string option"
  currentCampaignId :: "string option"

section \<open>Loading the state\<close>

text \<open>
  \<^verbatim>\<open>loadState()\<close> of app.js (lines 23 to 59). The stored item is \<open>None\<close> when the
  key is not in local storage. \<^verbatim>\<open>JSON.parse\<close> is the platform's: it is a parameter,
  returning \<open>None\<close> when it throws. Of the values it can return, \<^verbatim>\<open>null\<close> and
  objects are modelled; reading \<^verbatim>\<open>parsed.characters\<close> of \<^verbatim>\<open>null\<close> throws a
  TypeError, which the same \<^verbatim>\<open>catch\<close> handles.
\<close>

datatype json_doc = JsonNull | JsonObject state

text \<open>The object literal of the branch \<^verbatim>\<open>if (!raw)\<close>.\<close>

definition fresh_install_state :: state where
  "fresh_install_state =
     \<lparr>users = Some [], campaigns = Some [], sessions = Some [], proposals = Some [],
      characters = Some [], rolls = Some [], currentUserId = None,
      currentCampaignId = None\<rparr>"

text \<open>The object literal of the \<^verbatim>\<open>catch\<close> branch: it has no key \<^verbatim>\<open>rolls\<close>.\<close>

definition parse_failure_state :: state where
  "parse_failure_state =
     \<lparr>users = Some [], campaigns = Some [], sessions = Some [], proposals = Some [],
      characters = Some [], rolls = None, currentUserId = None,
      currentCampaignId = None\<rparr>"

definition ensure_array :: "'a list option \<Rightarrow> 'a list option" where
  "ensure_array xs = (case xs of None \<Rightarrow> Some [] | Some ys \<Rightarrow> Some ys)"

definition loadState :: "(string \<Rightarrow> json_doc option) \<Rightarrow> string option \<Rightarrow> state" where
  "loadState json_parse stored =
     (case stored of
        None \<Rightarrow> fresh_install_state
      | Some raw \<Rightarrow>
          if raw = [] then fresh_install_state
          else (case json_parse raw of
                  None \<Rightarrow> parse_failure_state
                | Some JsonNull \<Rightarrow> parse_failure_state
                | Some (JsonObject parsed) \<Rightarrow>
                    parsed\<lparr>characters := ensure_array (characters parsed),
                           proposals := ensure_array (proposals parsed),
                           rolls := ensure_array (rolls parsed)\<rparr>))"

section \<open>Proposal and voting engine\<close>

text \<open>
  Reading and writing a JavaScript array by index: a read past the end gives
  \<^verbatim>\<open>undefined\<close>, a write past the end extends the array and leaves holes.
\<close>

definition js_get :: "'a option list \<Rightarrow> nat \<Rightarrow> 'a option" where
  "js_get xs i = (if i < length xs then xs ! i else None)"

definition js_set :: "'a option list \<Rightarrow> nat \<Rightarrow> 'a \<Rightarrow> 'a option list" where
  "js_set xs i v =
     (if i < length xs then xs[i := Some v]
      else xs @ replicate (i - length xs) None @ [Some v])"

definition empty_buckets :: buckets where
  "empty_buckets = \<lparr>yes = [], maybe = [], no = []\<rparr>"

text \<open>
  \<^verbatim>\<open>const idx = arr.indexOf(userId); if (idx >= 0) arr.splice(idx, 1)\<close> removes the
  first occurrence only, which is \<^const>\<open>remove1\<close>.
\<close>

definition remove_user :: "string option \<Rightarrow> buckets \<Rightarrow> buckets" where
  "remove_user u b =
     b\<lparr>yes := remove1 u (yes b), maybe := remove1 u (maybe b), no := remove1 u (no b)\<rparr>"

fun push_vote :: "vote_type \<Rightarrow> string option \<Rightarrow> buckets \<Rightarrow> buckets" where
  "push_vote VoteYes u b = b\<lparr>yes := yes b @ [u]\<rparr>"
| "push_vote VoteMaybe u b = b\<lparr>maybe := maybe b @ [u]\<rparr>"
| "push_vote VoteNo u b = b\<lparr>no := no b @ [u]\<rparr>"

fun bucket :: "vote_type \<Rightarrow> buckets \<Rightarrow> string option list" where
  "bucket VoteYes b = yes b"
| "bucket VoteMaybe b = maybe b"
| "bucket VoteNo b = no b"

text \<open>
  \<^verbatim>\<open>handleVote(proposal, optionIndex, voteType, state)\<close> mutates the proposal, which
  is an object of \<^verbatim>\<open>state.proposals\<close>; the model returns the proposal as it is
  after the call. The closing \<^verbatim>\<open>saveState(state)\<close> writes the state to storage and
  changes nothing in memory.
\<close>

definition handleVote :: "proposal \<Rightarrow> nat \<Rightarrow> vote_type \<Rightarrow> state \<Rightarrow> proposal" where
  "handleVote p optionIndex voteType st =
     (let userId = currentUserId st;
          b = (case js_get (votes p) optionIndex of
                 None \<Rightarrow> empty_buckets
               | Some b0 \<Rightarrow> b0)
      in p\<lparr>votes := js_set (votes p) optionIndex (push_vote voteType userId (remove_user userId b))\<rparr>)"

text \<open>
  The click handlers of the campaign page hold a reference to one proposal of
  \<^verbatim>\<open>state.proposals\<close>. The reference is the position \<open>pi\<close> in that list. A
  handler only exists for a proposal that is in the list; for any other position the
  model returns the state as it is.
\<close>

definition update_proposal :: "state \<Rightarrow> nat \<Rightarrow> (proposal \<Rightarrow> proposal) \<Rightarrow> state" where
  "update_proposal st pi f =
     (case proposals st of
        None \<Rightarrow> st
      | Some ps \<Rightarrow> if pi < length ps then st\<lparr>proposals := Some (ps[pi := f (ps ! pi)])\<rparr> else st)"

text \<open>The vote buttons: \<^verbatim>\<open>btn.onclick = () => { handleVote(proposal, idx, vt, state); ... }\<close>.\<close>

definition vote_click :: "state \<Rightarrow> nat \<Rightarrow> nat \<Rightarrow> vote_type \<Rightarrow> state" where
  "vote_click st pi idx vt = update_proposal st pi (\<lambda>p. handleVote p idx vt st)"

text \<open>
  The Finalize button of app.js (lines 735 to 744): two assignments to the proposal,
  then \<^verbatim>\<open>saveState\<close> and a re-render.
\<close>

definition finalize_proposal :: "nat \<Rightarrow> proposal \<Rightarrow> proposal" where
  "finalize_proposal idx p = p\<lparr>finalized := True, finalChoiceIndex := Some idx\<rparr>"

definition finalize_click :: "state \<Rightarrow> nat \<Rightarrow> nat \<Rightarrow> state" where
  "finalize_click st pi idx = update_proposal st pi (finalize_proposal idx)"

text \<open>
  The Finalize button of the earlier variant of the application (the second source
  file, lines 609 to 623). After the same two assignments it builds a session object
  from the option of the row, with a fresh \<^verbatim>\<open>uuid()\<close> (the parameter \<open>new_id\<close>) and
  \<^verbatim>\<open>new Date(`${opt.date}T${opt.start}`)\<close> (\<open>parse_date\<close> is the platform's
  parser), and pushes it on \<^verbatim>\<open>state.sessions\<close>. The handler is created inside
  \<^verbatim>\<open>proposal.options.forEach((opt, idx) => ...)\<close>, so \<open>idx\<close> is an index of
  the options; for any other index the model returns the state as it is. When
  \<^verbatim>\<open>state.sessions\<close> is absent the push throws, after the proposal has been
  changed: the result is then \<open>Inl\<close> with the state at the throw.
\<close>

definition slot_session ::
  "(string \<Rightarrow> local_time option) \<Rightarrow> string \<Rightarrow> string \<Rightarrow> slot \<Rightarrow> session" where
  "slot_session parse_date sid cid opt =
     \<lparr>session_id = sid,
      datetime = DateObject (parse_date (date opt @ ''T'' @ start opt)),
      s_campaignId = cid,
      session_end = Some (slot_end opt),
      s_location = location opt\<rparr>"

definition finalize_click_pushing ::
  "(string \<Rightarrow> local_time option) \<Rightarrow> string \<Rightarrow> string \<Rightarrow> state \<Rightarrow> nat \<Rightarrow> nat
     \<Rightarrow> (error \<times> state) + state" where
  "finalize_click_pushing parse_date new_id cid st pi idx =
     (case proposals st of
        None \<Rightarrow> Inr st
      | Some ps \<Rightarrow>
          if pi < length ps \<and> idx < length (options (ps ! pi)) then
            (let st1 = update_proposal st pi (finalize_proposal idx);
                 sessObj = slot_session parse_date new_id cid (options (ps ! pi) ! idx)
             in case sessions st1 of
                  None \<Rightarrow> Inl (TypeError, st1)
                | Some ss \<Rightarrow> Inr (st1\<lparr>sessions := Some (ss @ [sessObj])\<rparr>))
          else Inr st)"

text \<open>
  The proposal object that the proposal form builds when it is saved (app.js, lines 1494
  to 1503): not finalized, and one object of three empty buckets per option.
\<close>

definition new_proposal :: "string \<Rightarrow> string \<Rightarrow> slot list \<Rightarrow> proposal" where
  "new_proposal new_id campId opts =
     \<lparr>proposal_id = new_id, p_campaignId = campId, finalized = False,
      finalChoiceIndex = None, options = opts,
      votes = map (\<lambda>opt. Some empty_buckets) opts\<rparr>"

text \<open>
  The invariant of the vote buckets: no identifier occurs twice among the three buckets
  of an option, so that a user is in at most one bucket, at most once.
\<close>

definition exclusive_buckets :: "buckets \<Rightarrow> bool" where
  "exclusive_buckets b = distinct (yes b @ maybe b @ no b)"

definition votes_exclusive :: "proposal \<Rightarrow> bool" where
  "votes_exclusive p =
     list_all (\<lambda>e. case e of None \<Rightarrow> True | Some b \<Rightarrow> exclusive_buckets b) (votes p)"

text \<open>In how many of the three buckets an identifier occurs.\<close>

definition bucket_count :: "string option \<Rightarrow> buckets \<Rightarrow> nat" where
  "bucket_count u b =
     (if u \<in> set (yes b) then 1 else 0) + (if u \<in> set (maybe b) then 1 else 0)
       + (if u \<in> set (no b) then 1 else 0)"

text \<open>
  The buckets the campaign page reads for an option:
  \<^verbatim>\<open>proposal.votes[idx] || { yes: [], maybe: [], no: [] }\<close>.
\<close>

definition votes_or_empty :: "proposal \<Rightarrow> nat \<Rightarrow> buckets" where
  "votes_or_empty p idx =
     (case js_get (votes p) idx of None \<Rightarrow> empty_buckets | Some b \<Rightarrow> b)"

text \<open>
  The proposals the application can hold. The application creates a proposal with
  \<open>new_proposal\<close> and afterwards changes it only in the vote handler and in the
  Finalize handler; writing the state to storage and reading it back changes nothing.
\<close>

inductive reachable_proposal :: "proposal \<Rightarrow> bool" where
  created: "reachable_proposal (new_proposal new_id campId opts)"
| voted: "reachable_proposal p \<Longrightarrow> reachable_proposal (handleVote p optionIndex voteType st)"
| finalised: "reachable_proposal p \<Longrightarrow> reachable_proposal (finalize_proposal idx p)"

section \<open>Listing the scheduled sessions of a campaign\<close>

text \<open>
  The first part of \<^verbatim>\<open>renderCampaignDetail\<close> of app.js (lines 636 to 676) builds the
  array \<^verbatim>\<open>scheduledSessions\<close> for the campaign on display, whose identifier is
  \<open>cid\<close>. The list is then sorted by time and rendered, one item per entry; sorting
  neither adds nor removes an entry, and the model stops at the array.

  \<^verbatim>\<open>new Date(x)\<close> copies a \<^verbatim>\<open>Date\<close> and parses a string; the parser is the
  platform's and is the parameter \<open>parse_date\<close>.
\<close>

definition new_Date :: "(string \<Rightarrow> local_time option) \<Rightarrow> js_datetime \<Rightarrow> local_time option" where
  "new_Date parse_date d = (case d of DateObject t \<Rightarrow> t | DateString s \<Rightarrow> parse_date s)"

text \<open>
  The five comparisons \<^verbatim>\<open>eStart.getFullYear() === sStart.getFullYear() && ...\<close>.
  The getters of an invalid date return \<^verbatim>\<open>NaN\<close>, which is not \<^verbatim>\<open>===\<close> to
  anything.
\<close>

definition same_minute :: "local_time option \<Rightarrow> local_time option \<Rightarrow> bool" where
  "same_minute e s =
     (case e of
        None \<Rightarrow> False
      | Some a \<Rightarrow>
          (case s of
             None \<Rightarrow> False
           | Some b \<Rightarrow>
               year a = year b \<and> month a = month b \<and> day_of_month a = day_of_month b
               \<and> hours a = hours b \<and> minutes a = minutes b))"

text \<open>\<^verbatim>\<open>x.location || ''\<close>\<close>

definition or_empty :: "string option \<Rightarrow> string" where
  "or_empty l = (case l of None \<Rightarrow> [] | Some x \<Rightarrow> x)"

definition is_duplicate ::
  "(string \<Rightarrow> local_time option) \<Rightarrow> session \<Rightarrow> session \<Rightarrow> bool" where
  "is_duplicate parse_date existing s =
     (same_minute (new_Date parse_date (datetime existing)) (new_Date parse_date (datetime s))
      \<and> or_empty (s_location existing) = or_empty (s_location s))"

text \<open>
  \<^verbatim>\<open>finalisedProposals.forEach((p) => { const opt = p.options[p.finalChoiceIndex]; ... })\<close>:
  one entry per finalised proposal, carrying the proposal's identifier. When the index
  is \<^verbatim>\<open>null\<close> or past the options, \<^verbatim>\<open>opt\<close> is undefined and reading
  \<^verbatim>\<open>opt.date\<close> throws.
\<close>

fun finalised_sessions ::
  "(string \<Rightarrow> local_time option) \<Rightarrow> string \<Rightarrow> proposal list \<Rightarrow> error + session list" where
  "finalised_sessions parse_date cid [] = Inr []"
| "finalised_sessions parse_date cid (p # ps) =
     (case finalChoiceIndex p of
        None \<Rightarrow> Inl TypeError
      | Some k \<Rightarrow>
          if k < length (options p) then
            (case finalised_sessions parse_date cid ps of
               Inl e \<Rightarrow> Inl e
             | Inr rest \<Rightarrow> Inr (slot_session parse_date (proposal_id p) cid (options p ! k) # rest))
          else Inl TypeError)"

text \<open>
  The loop over the campaign's entries of \<^verbatim>\<open>state.sessions\<close>: an entry is pushed
  unless \<^verbatim>\<open>scheduledSessions.some(...)\<close> finds a duplicate among the entries
  already there.
\<close>

fun add_legacy ::
  "(string \<Rightarrow> local_time option) \<Rightarrow> session list \<Rightarrow> session list \<Rightarrow> session list" where
  "add_legacy parse_date scheduled [] = scheduled"
| "add_legacy parse_date scheduled (s # ss) =
     add_legacy parse_date
       (if list_ex (\<lambda>existing. is_duplicate parse_date existing s) scheduled then scheduled
        else scheduled @ [s]) ss"

definition scheduledSessions ::
  "(string \<Rightarrow> local_time option) \<Rightarrow> state \<Rightarrow> string \<Rightarrow> error + session list" where
  "scheduledSessions parse_date st cid =
     (case proposals st of
        None \<Rightarrow> Inl TypeError
      | Some ps \<Rightarrow>
          (case finalised_sessions parse_date cid
                  (filter (\<lambda>p. p_campaignId p = cid \<and> finalized p) ps) of
             Inl e \<Rightarrow> Inl e
           | Inr fs \<Rightarrow>
               (case sessions st of
                  None \<Rightarrow> Inl TypeError
                | Some ss \<Rightarrow>
                    Inr (add_legacy parse_date fs (filter (\<lambda>s. s_campaignId s = cid) ss)))))"

section \<open>Leveling engine: ability score increase and XP award\<close>

text \<open>
  Strings are lists of bytes. The functions below treat the ASCII range as JavaScript
  does: \<^verbatim>\<open>\s\<close> and \<^verbatim>\<open>trim\<close> know the six ASCII white-space characters,
  \<^verbatim>\<open>toLowerCase\<close> maps \<^verbatim>\<open>A-Z\<close>. White space and letters outside ASCII are
  not modelled; none of them is part of an ability code.
\<close>

definition is_space :: "char \<Rightarrow> bool" where
  "is_space c = (c \<in> set [CHR '' '', CHR 0x09, CHR 0x0A, CHR 0x0B, CHR 0x0C, CHR 0x0D])"

definition lower_char :: "char \<Rightarrow> char" where
  "lower_char c =
     (case map_of (zip ''ABCDEFGHIJKLMNOPQRSTUVWXYZ'' ''abcdefghijklmnopqrstuvwxyz'') c of
        None \<Rightarrow> c
      | Some l \<Rightarrow> l)"

definition toLowerCase :: "string \<Rightarrow> string" where
  "toLowerCase s = map lower_char s"

definition trim :: "string \<Rightarrow> string" where
  "trim s = rev (dropWhile is_space (rev (dropWhile is_space s)))"

text \<open>
  \<^verbatim>\<open>input.split(/[,\s]+/)\<close>: the fields between maximal runs of commas and white
  space, with an empty first or last field when the string starts or ends with a
  separator. \<open>in_sep\<close> says that the previous character was a separator, \<open>cur\<close> is
  the field read so far.
\<close>

fun split_fields :: "bool \<Rightarrow> string \<Rightarrow> string \<Rightarrow> string list" where
  "split_fields in_sep cur [] = [cur]"
| "split_fields in_sep cur (c # cs) =
     (if c = CHR '','' \<or> is_space c then
        (if in_sep then split_fields True cur cs else cur # split_fields True [] cs)
      else split_fields False (cur @ [c]) cs)"

definition split_commas_spaces :: "string \<Rightarrow> string list" where
  "split_commas_spaces s = split_fields False [] s"

text \<open>
  The filter \<^verbatim>\<open>['str','dex','con','int','wis','cha'].includes(p)\<close> and the use of
  the codes it keeps as keys of \<^verbatim>\<open>ch.abilityScores\<close>.
\<close>

definition ability_of :: "string \<Rightarrow> ability option" where
  "ability_of p =
     map_of [(''str'', Ab_str), (''dex'', Ab_dex), (''con'', Ab_con), (''int'', Ab_int), (''wis'', Ab_wis),
             (''cha'', Ab_cha)] p"

definition ability_codes :: "string \<Rightarrow> ability list" where
  "ability_codes s =
     List.map_filter ability_of (map (\<lambda>p. toLowerCase (trim p)) (split_commas_spaces s))"

definition increase :: "ability \<Rightarrow> int \<Rightarrow> character \<Rightarrow> character" where
  "increase a n ch = ch\<lparr>abilityScores := (abilityScores ch)(a := abilityScores ch a + n)\<rparr>"

text \<open>
  \<^verbatim>\<open>promptAbilityScoreIncrease(ch)\<close>; the first argument is what \<^verbatim>\<open>prompt\<close>
  returned, \<open>None\<close> when the dialog was cancelled.
\<close>

definition promptAbilityScoreIncrease :: "string option \<Rightarrow> character \<Rightarrow> character" where
  "promptAbilityScoreIncrease input ch =
     (case input of
        None \<Rightarrow> ch
      | Some s \<Rightarrow>
          if s = [] then ch
          else (case ability_codes s of
                  [] \<Rightarrow> ch
                | [a] \<Rightarrow> increase a 2 ch
                | a # b # rest \<Rightarrow> increase b 1 (increase a 1 ch)))"

text \<open>\<^verbatim>\<open>ch.hitDie || 8\<close>: 8 for \<^verbatim>\<open>null\<close> and for 0.\<close>

definition hit_die_or_8 :: "character \<Rightarrow> int" where
  "hit_die_or_8 ch = (case hitDie ch of None \<Rightarrow> 8 | Some d \<Rightarrow> if d = 0 then 8 else d)"

text \<open>\<^verbatim>\<open>Math.floor((ch.abilityScores.con - 10) / 2)\<close>\<close>

definition con_mod :: "character \<Rightarrow> int" where
  "con_mod ch = (abilityScores ch Ab_con - 10) div 2"

text \<open>The value of \<^verbatim>\<open>ch.hp\<close> in \<^verbatim>\<open>ch.hp += n\<close>: \<^verbatim>\<open>null\<close> counts as 0.\<close>

definition hp_or_0 :: "character \<Rightarrow> int" where
  "hp_or_0 ch = (case hp ch of None \<Rightarrow> 0 | Some h \<Rightarrow> h)"

text \<open>\<^verbatim>\<open>ch.features || []\<close>\<close>

definition features_or_empty :: "character \<Rightarrow> string list" where
  "features_or_empty ch = (case features ch of None \<Rightarrow> [] | Some fs \<Rightarrow> fs)"

text \<open>
  \<^verbatim>\<open>Array.from(new Set(xs))\<close>: the elements of \<open>xs\<close> in the order of their first
  occurrence.
\<close>

definition array_from_set :: "'a list \<Rightarrow> 'a list" where
  "array_from_set xs = rev (remdups (rev xs))"

text \<open>\<^verbatim>\<open>/ability score/i.test(f)\<close>\<close>

fun contains :: "string \<Rightarrow> string \<Rightarrow> bool" where
  "contains pat [] = (pat = [])"
| "contains pat (c # cs) = (take (length pat) (c # cs) = pat \<or> contains pat cs)"

definition is_ability_score_feature :: "string \<Rightarrow> bool" where
  "is_ability_score_feature f = contains ''ability score'' (toLowerCase f)"

text \<open>
  The body of the loop \<^verbatim>\<open>for (let lvl = ch.level + 1; lvl <= newLevel; lvl++)\<close> of
  the two Award XP handlers of app.js (lines 814 to 830 and 1368 to 1381). The features
  of a class level come from the network (\<^verbatim>\<open>fetchLevelFeatures\<close>, the parameter
  \<open>fetch\<close>, which gives the empty list when the request fails) and the answer to the
  prompt of a level from the user (\<open>inputs\<close>).
\<close>

definition level_step ::
  "(string \<Rightarrow> int \<Rightarrow> string list) \<Rightarrow> (int \<Rightarrow> string option) \<Rightarrow> int \<Rightarrow> character \<Rightarrow> character" where
  "level_step fetch inputs lvl ch =
     (let conMod = con_mod ch;
          ch1 = ch\<lparr>hp := Some (hp_or_0 ch + (hit_die_or_8 ch + conMod))\<rparr>
      in case classIndex ch1 of
           None \<Rightarrow> ch1
         | Some cls \<Rightarrow>
             if cls = [] then ch1
             else (let feats = fetch cls lvl;
                       ch2 = ch1\<lparr>features := Some (array_from_set (features_or_empty ch1 @ feats))\<rparr>
                   in if list_ex is_ability_score_feature feats
                      then promptAbilityScoreIncrease (inputs lvl) ch2
                      else ch2))"

function level_up_loop ::
  "(string \<Rightarrow> int \<Rightarrow> string list) \<Rightarrow> (int \<Rightarrow> string option) \<Rightarrow> int \<Rightarrow> int \<Rightarrow> character
     \<Rightarrow> character" where
  "level_up_loop fetch inputs newLevel lvl ch =
     (if lvl \<le> newLevel
      then level_up_loop fetch inputs newLevel (lvl + 1) (level_step fetch inputs lvl ch)
      else ch)"
  by pat_completeness auto
termination
  by (relation "measure (\<lambda>(fetch, inputs, newLevel, lvl, ch). nat (newLevel + 1 - lvl))") auto

declare level_up_loop.simps [simp del]

text \<open>
  The Award XP handler on the character it was created for. \<open>xp_in\<close> is the result of
  \<^verbatim>\<open>parseInt(xpStr, 10)\<close>, \<open>None\<close> for \<^verbatim>\<open>NaN\<close>.
\<close>

definition award_xp ::
  "(string \<Rightarrow> int \<Rightarrow> string list) \<Rightarrow> (int \<Rightarrow> string option) \<Rightarrow> int option \<Rightarrow> character
     \<Rightarrow> character" where
  "award_xp fetch inputs xp_in ch =
     (case xp_in of
        None \<Rightarrow> ch
      | Some n \<Rightarrow>
          if n \<le> 0 then ch
          else (let ch1 = ch\<lparr>xp := xp ch + n\<rparr>;
                    newLevel = int (getLevelFromXp (Some (xp ch1)))
                in if newLevel > level ch1
                   then (level_up_loop fetch inputs newLevel (level ch1 + 1) ch1)
                          \<lparr>level := newLevel\<rparr>
                   else ch1))"

section \<open>Dice roller\<close>

text \<open>
  A term of a dice expression, as \<^verbatim>\<open>parseDiceExpression\<close> returns it:
  \<^verbatim>\<open>{type: 'dice', count, size, sign}\<close> or \<^verbatim>\<open>{type: 'mod', mod}\<close>. Numbers are
  integers here; a number of more digits than a JavaScript number holds exactly is
  outside the model.
\<close>

datatype dice_term = Dice int int int | Mod int

definition is_digit :: "char \<Rightarrow> bool" where
  "is_digit c = (c \<in> set ''0123456789'')"

definition digit_value :: "char \<Rightarrow> nat" where
  "digit_value c = length (takeWhile (\<lambda>d. d \<noteq> c) ''0123456789'')"

text \<open>
  \<^verbatim>\<open>parseInt(s, 10)\<close> on the strings the parser passes to it, which have no sign
  and no white space: the value of the leading digits, \<^verbatim>\<open>NaN\<close> (\<open>None\<close>) when
  there is none.
\<close>

definition parseInt10 :: "string \<Rightarrow> int option" where
  "parseInt10 s =
     (let ds = takeWhile is_digit s
      in if ds = [] then None
         else Some (int (foldl (\<lambda>a c. 10 * a + digit_value c) 0 ds)))"

text \<open>\<^verbatim>\<open>expr.replace(/\s+/g, '')\<close>\<close>

definition strip_spaces :: "string \<Rightarrow> string" where
  "strip_spaces s = filter (\<lambda>c. \<not> is_space c) s"

text \<open>
  \<^verbatim>\<open>cleaned.match(/[+-]?\d*d\d+|[+-]?\d+/g)\<close>. At a position the first
  alternative is tried, then the second; when both fail the search moves on by one
  character. \<open>take_sign\<close> is \<^verbatim>\<open>[+-]?\<close>. Inside an alternative nothing is gained by
  backtracking: with fewer digits, or without the sign, the next character to match
  would be a digit or a sign where the pattern wants \<^verbatim>\<open>d\<close> or a digit.
\<close>

definition take_sign :: "string \<Rightarrow> string \<times> string" where
  "take_sign s =
     (case s of
        [] \<Rightarrow> ([], [])
      | c # cs \<Rightarrow> if c = CHR ''+'' \<or> c = CHR ''-'' then ([c], cs) else ([], s))"

definition match_dice :: "string \<Rightarrow> (string \<times> string) option" where
  "match_dice s =
     (let (sg, s1) = take_sign s;
          ds = takeWhile is_digit s1
      in case dropWhile is_digit s1 of
           [] \<Rightarrow> None
         | c # s3 \<Rightarrow>
             if c = CHR ''d'' \<and> takeWhile is_digit s3 \<noteq> []
             then Some (sg @ ds @ [c] @ takeWhile is_digit s3, dropWhile is_digit s3)
             else None)"

definition match_number :: "string \<Rightarrow> (string \<times> string) option" where
  "match_number s =
     (let (sg, s1) = take_sign s;
          ds = takeWhile is_digit s1
      in if ds = [] then None else Some (sg @ ds, dropWhile is_digit s1))"

function match_all :: "string \<Rightarrow> string list" where
  "match_all [] = []"
| "match_all (c # cs) =
     (case match_dice (c # cs) of
        Some (tok, rest) \<Rightarrow> tok # match_all rest
      | None \<Rightarrow>
          (case match_number (c # cs) of
             Some (tok, rest) \<Rightarrow> tok # match_all rest
           | None \<Rightarrow> match_all cs))"
  by pat_completeness auto
termination
proof (relation "measure length")
  show "wf (measure length)" by simp
next
  fix c cs x2 tok rest
  assume "match_dice (c # cs) = Some x2" and "(tok, rest) = x2"
  then have m: "match_dice (c # cs) = Some (tok, rest)" by simp
  obtain sg s1 where t: "take_sign (c # cs) = (sg, s1)" by (cases "take_sign (c # cs)")
  then have "length s1 \<le> length (c # cs)"
    by (auto simp: take_sign_def split: if_splits)
  moreover from m t obtain s3 where "dropWhile is_digit s1 = CHR ''d'' # s3"
    and "rest = dropWhile is_digit s3"
    by (auto simp: match_dice_def Let_def split: list.splits if_splits)
  then have "length rest < length s1"
    using length_dropWhile_le [of is_digit s3] length_dropWhile_le [of is_digit s1] by simp
  ultimately show "(rest, c # cs) \<in> measure length" by simp
next
  fix c cs x2 tok rest
  assume "match_number (c # cs) = Some x2" and "(tok, rest) = x2"
  then have m: "match_number (c # cs) = Some (tok, rest)" by simp
  obtain sg s1 where t: "take_sign (c # cs) = (sg, s1)" by (cases "take_sign (c # cs)")
  then have "length s1 \<le> length (c # cs)"
    by (auto simp: take_sign_def split: if_splits)
  moreover from m t have "takeWhile is_digit s1 \<noteq> []" and "rest = dropWhile is_digit s1"
    by (auto simp: match_number_def Let_def split: if_splits)
  then have "length rest < length s1"
    using length_append [of "takeWhile is_digit s1" "dropWhile is_digit s1"]
    by (simp del: length_append)
  ultimately show "(rest, c # cs) \<in> measure length" by simp
next
  fix c cs
  show "(cs, c # cs) \<in> measure length" by simp
qed

text \<open>
  The function mapped over the tokens: the sign is split off, a token with a
  \<^verbatim>\<open>d\<close> is split at it into count and size, any other token is a modifier.
\<close>

definition token_term :: "string \<Rightarrow> dice_term" where
  "token_term tok0 =
     (let (sign, tok) =
            (case tok0 of
               [] \<Rightarrow> (1, [])
             | c # cs \<Rightarrow> if c = CHR ''-'' then (- 1, cs)
                         else if c = CHR ''+'' then (1, cs) else (1, tok0))
      in if CHR ''d'' \<in> set tok then
           (let part0 = takeWhile (\<lambda>c. c \<noteq> CHR ''d'') tok;
                part1 = takeWhile (\<lambda>c. c \<noteq> CHR ''d'')
                          (drop 1 (dropWhile (\<lambda>c. c \<noteq> CHR ''d'') tok));
                count = (if part0 = [] then Some 1 else parseInt10 part0);
                size = parseInt10 part1
            in Dice (case count of None \<Rightarrow> 1 | Some n \<Rightarrow> n)
                    (case size of None \<Rightarrow> 6 | Some n \<Rightarrow> n) sign)
         else Mod ((case parseInt10 tok of None \<Rightarrow> 0 | Some n \<Rightarrow> n) * sign))"

definition parseDiceExpression :: "string \<Rightarrow> dice_term list" where
  "parseDiceExpression expr =
     (if expr = [] then [] else map token_term (match_all (strip_spaces expr)))"

text \<open>Printing an integer as JavaScript prints one, in decimal.\<close>

fun digits_of :: "nat \<Rightarrow> string" where
  "digits_of n =
     (if n < 10 then [''0123456789'' ! n]
      else digits_of (n div 10) @ [''0123456789'' ! (n mod 10)])"

declare digits_of.simps [simp del]

definition show_int :: "int \<Rightarrow> string" where
  "show_int i = (if i < 0 then CHR ''-'' # digits_of (nat (- i)) else digits_of (nat i))"

text \<open>\<^verbatim>\<open>results.join(',')\<close>\<close>

fun join_commas :: "string list \<Rightarrow> string" where
  "join_commas [] = []"
| "join_commas [x] = x"
| "join_commas (x # y # ys) = x @ '','' @ join_commas (y # ys)"

text \<open>
  The variables that \<^verbatim>\<open>rollDice\<close> updates while it goes through the terms:
  \<^verbatim>\<open>total\<close>, \<^verbatim>\<open>detailParts\<close> and \<^verbatim>\<open>crit\<close>, and the number of calls of
  \<^verbatim>\<open>Math.random\<close> made so far. The random source is the parameter \<open>rnd\<close>:
  \<open>rnd k die_size\<close> is the value of \<^verbatim>\<open>Math.floor(Math.random() * size)\<close> at call
  number \<open>k\<close>.
\<close>

record roll_acc =
  calls :: nat
  running_total :: int
  detailParts :: "string list"
  current_crit :: "crit_flag option"

text \<open>
  The loop \<^verbatim>\<open>for (let i = 0; i < term.count; i++)\<close> of a dice term, with \<open>m\<close>
  iterations left; \<open>results\<close> is the array of the rolls of the term.
\<close>

fun roll_loop ::
  "(nat \<Rightarrow> int \<Rightarrow> int) \<Rightarrow> int \<Rightarrow> int \<Rightarrow> int \<Rightarrow> nat \<Rightarrow> roll_acc \<times> int list
     \<Rightarrow> roll_acc \<times> int list" where
  "roll_loop rnd count die_size sign 0 (acc, results) = (acc, results)"
| "roll_loop rnd count die_size sign (Suc m) (acc, results) =
     (let roll = rnd (calls acc) die_size + 1
      in roll_loop rnd count die_size sign m
           (acc\<lparr>calls := Suc (calls acc),
                running_total := running_total acc + roll * sign,
                current_crit :=
                  (if die_size = 20 \<and> count = 1
                   then (if roll = 20 then Some Success
                         else if roll = 1 then Some Failure else current_crit acc)
                   else current_crit acc)\<rparr>,
            results @ [roll]))"

text \<open>The body of \<^verbatim>\<open>terms.forEach((term) => ...)\<close>.\<close>

fun roll_term :: "(nat \<Rightarrow> int \<Rightarrow> int) \<Rightarrow> dice_term \<Rightarrow> roll_acc \<Rightarrow> roll_acc" where
  "roll_term rnd (Dice count die_size sign) acc =
     (let (acc1, results) = roll_loop rnd count die_size sign (nat count) (acc, []);
          prefix = (if sign = - 1 then ''-'' else []);
          shown = (if length results > 1 then ''['' @ join_commas (map show_int results) @ '']''
                   else (case results of [] \<Rightarrow> ''undefined'' | r # rs \<Rightarrow> show_int r))
      in acc1\<lparr>detailParts := detailParts acc1 @ [prefix @ shown]\<rparr>)"
| "roll_term rnd (Mod m) acc =
     acc\<lparr>running_total := running_total acc + m,
         detailParts := detailParts acc @ [if m \<ge> 0 then ''+'' @ show_int m else show_int m]\<rparr>"

definition roll_terms :: "(nat \<Rightarrow> int \<Rightarrow> int) \<Rightarrow> dice_term list \<Rightarrow> roll_acc" where
  "roll_terms rnd terms =
     foldl (\<lambda>acc term. roll_term rnd term acc)
       \<lparr>calls = 0, running_total = 0, detailParts = [], current_crit = None\<rparr> terms"

text \<open>The object \<^verbatim>\<open>{ total, details, crit }\<close> that \<^verbatim>\<open>rollDice\<close> returns.\<close>

record roll_result =
  roll_total :: int
  roll_details :: string
  roll_crit :: "crit_flag option"

text \<open>
  The test of the comment \<^verbatim>\<open>Check for critical success/failure on single d20\<close>:
  \<^verbatim>\<open>term.size === 20 && term.count === 1\<close>, on a dice term.
\<close>

fun is_single_d20 :: "dice_term \<Rightarrow> bool" where
  "is_single_d20 (Dice count die_size sign) = (die_size = 20 \<and> count = 1)"
| "is_single_d20 (Mod m) = False"

text \<open>
  \<^verbatim>\<open>rollDice(expr, label = '', state)\<close> of app.js (lines 1551 to 1600). \<open>new_id\<close> is
  the value of \<^verbatim>\<open>uuid()\<close> and \<open>now\<close> that of \<^verbatim>\<open>Date.now()\<close>; the state is
  optional. The roll is logged when a user is logged in; \<^verbatim>\<open>state.users.find\<close> and
  \<^verbatim>\<open>state.rolls.push\<close> throw when the key is absent. The result holds the state as
  the call leaves it. \<open>log_entry\<close> is the object literal \<^verbatim>\<open>entry\<close>.
\<close>

definition log_entry ::
  "string \<Rightarrow> int \<Rightarrow> string \<Rightarrow> user list \<Rightarrow> string \<Rightarrow> string \<Rightarrow> roll_result \<Rightarrow> state
     \<Rightarrow> roll_entry" where
  "log_entry new_id now uid us expr lbl res st =
     \<lparr>entry_id = new_id, timestamp = now, r_userId = uid,
      userName = (case find (\<lambda>u. user_id u = uid) us of
                    None \<Rightarrow> ''Unknown''
                  | Some u \<Rightarrow> username u),
      expression = expr,
      label = (if lbl = [] then expr else lbl),
      result = roll_total res, details = roll_details res, crit = roll_crit res,
      r_campaignId = (case currentCampaignId st of
                        None \<Rightarrow> None
                      | Some c \<Rightarrow> if c = [] then None else Some c)\<rparr>"

definition rollDice ::
  "(nat \<Rightarrow> int \<Rightarrow> int) \<Rightarrow> string \<Rightarrow> int \<Rightarrow> string \<Rightarrow> string \<Rightarrow> state option
     \<Rightarrow> error + (roll_result \<times> state option)" where
  "rollDice rnd new_id now expr lbl st_opt =
     (let acc = roll_terms rnd (parseDiceExpression expr);
          res = \<lparr>roll_total = running_total acc, roll_details = concat (detailParts acc),
                 roll_crit = current_crit acc\<rparr>
      in case st_opt of
           None \<Rightarrow> Inr (res, None)
         | Some st \<Rightarrow>
             (case currentUserId st of
                None \<Rightarrow> Inr (res, Some st)
              | Some uid \<Rightarrow>
                  if uid = [] then Inr (res, Some st)
                  else (case users st of
                          None \<Rightarrow> Inl TypeError
                        | Some us \<Rightarrow>
                            (case rolls st of
                               None \<Rightarrow> Inl TypeError
                             | Some rs \<Rightarrow>
                                 (let entry = log_entry new_id now uid us expr lbl res st;
                                      rs1 = rs @ [entry];
                                      rs2 = (if length rs1 > 500
                                             then drop (length rs1 - 500) rs1 else rs1)
                                  in Inr (res, Some (st\<lparr>rolls := Some rs2\<rparr>)))))))"

section \<open>Properties of the level lookup\<close>

lemma length_thresholds: "length thresholds = 20"
  by (simp add: thresholds_def)

lemma level_scan_none: "level_scan ts None k = 1"
  by (induction k) (simp_all add: js_ge_def)

lemma level_scan_hit:
  "i < k \<Longrightarrow> ts ! i \<le> v \<Longrightarrow> \<forall>j. i < j \<and> j < k \<longrightarrow> v < ts ! j
     \<Longrightarrow> level_scan ts (Some v) k = i + 1"
proof (induction k)
  case 0
  then show ?case by simp
next
  case (Suc k)
  show ?case
  proof (cases "i = k")
    case True
    with Suc.prems show ?thesis by (simp add: js_ge_def)
  next
    case False
    with Suc.prems have ik: "i < k" by simp
    from Suc.prems ik have "v < ts ! k" by simp
    moreover have "level_scan ts (Some v) k = i + 1"
      using Suc.IH ik Suc.prems by simp
    ultimately show ?thesis by (simp add: js_ge_def)
  qed
qed

lemma level_scan_miss:
  "\<forall>j<k. v < ts ! j \<Longrightarrow> level_scan ts (Some v) k = 1"
proof (induction k)
  case 0
  then show ?case by simp
next
  case (Suc k)
  then have "v < ts ! k" and "level_scan ts (Some v) k = 1" by simp_all
  then show ?case by (simp add: js_ge_def)
qed

lemma level_scan_lower:
  "i < k \<Longrightarrow> ts ! i \<le> v \<Longrightarrow> i + 1 \<le> level_scan ts (Some v) k"
proof (induction k)
  case 0
  then show ?case by simp
next
  case (Suc k)
  then show ?case by (cases "i = k") (auto simp: js_ge_def)
qed

lemma level_scan_range: "1 \<le> level_scan ts x k \<and> level_scan ts x k \<le> max 1 k"
  by (induction k) auto

lemma level_scan_sat:
  "level_scan ts (Some v) k = Suc i \<Longrightarrow> 0 < i \<Longrightarrow> i < k \<and> ts ! i \<le> v"
proof (induction k)
  case 0
  then show ?case by simp
next
  case (Suc k)
  then show ?case by (auto simp: js_ge_def split: if_splits)
qed

lemma level_scan_mono:
  "x \<le> y \<Longrightarrow> level_scan ts (Some x) k \<le> level_scan ts (Some y) k"
proof -
  assume xy: "x \<le> y"
  show ?thesis
  proof (cases "level_scan ts (Some x) k")
    case 0
    then show ?thesis by simp
  next
    case (Suc i)
    show ?thesis
    proof (cases "i = 0")
      case True
      with Suc level_scan_range [of ts "Some y" k] show ?thesis by simp
    next
      case False
      with Suc level_scan_sat [of ts x k i] have "i < k" "ts ! i \<le> x" by simp_all
      with xy level_scan_lower [of i k ts y] Suc show ?thesis by simp
    qed
  qed
qed

lemma thresholds_ascending: "sorted_wrt (<) thresholds"
  by (simp add: thresholds_def)

lemma thresholds_nth_less:
  "i < j \<Longrightarrow> j < length thresholds \<Longrightarrow> thresholds ! i < thresholds ! j"
  using thresholds_ascending by (rule sorted_wrt_nth_less)

lemma thresholds_first: "thresholds ! 0 = 0"
  by (simp add: thresholds_def)

lemma below_first_threshold:
  assumes "v < thresholds ! 0" and "j < length thresholds"
  shows "v < thresholds ! j"
proof (cases "j = 0")
  case True
  with assms show ?thesis by simp
next
  case False
  then have "thresholds ! 0 < thresholds ! j"
    using assms(2) by (intro thresholds_nth_less) simp_all
  with assms(1) show ?thesis by simp
qed

text \<open>
  Claim C4. \<open>getLevelFromXp\<close> returns \<open>i + 1\<close> for the highest index \<open>i\<close> of the
  20-entry ascending table whose threshold does not exceed the XP value; it returns 1
  when no threshold is satisfied, which is the case for an undefined or NaN argument
  and for every value below the first threshold (in particular every negative value).
\<close>

theorem getLevelFromXp_highest_threshold:
  "(i < length thresholds \<and> thresholds ! i \<le> v
      \<and> (\<forall>j. i < j \<and> j < length thresholds \<longrightarrow> v < thresholds ! j)
      \<longrightarrow> getLevelFromXp (Some v) = i + 1)
   \<and> ((\<forall>j<length thresholds. v < thresholds ! j) \<longrightarrow> getLevelFromXp (Some v) = 1)
   \<and> (v < thresholds ! 0 \<longrightarrow> getLevelFromXp (Some v) = 1)
   \<and> (v < 0 \<longrightarrow> getLevelFromXp (Some v) = 1)
   \<and> getLevelFromXp None = 1
   \<and> length thresholds = 20 \<and> sorted_wrt (<) thresholds"
proof -
  have a: "getLevelFromXp (Some v) = i + 1"
    if "i < length thresholds" "thresholds ! i \<le> v"
       "\<forall>j. i < j \<and> j < length thresholds \<longrightarrow> v < thresholds ! j"
    unfolding getLevelFromXp_def using that by (rule level_scan_hit)
  have b: "getLevelFromXp (Some v) = 1" if "\<forall>j<length thresholds. v < thresholds ! j"
    unfolding getLevelFromXp_def using that by (rule level_scan_miss)
  have c: "getLevelFromXp (Some v) = 1" if "v < thresholds ! 0"
    using that b below_first_threshold by blast
  have d: "getLevelFromXp (Some v) = 1" if "v < 0"
    using that c thresholds_first by simp
  have e: "getLevelFromXp None = 1"
    by (simp add: getLevelFromXp_def level_scan_none)
  from a b c d e length_thresholds thresholds_ascending show ?thesis by blast
qed

theorem getLevelFromXp_highest_threshold_witness:
  "getLevelFromXp (Some 1000) = 3 \<and> getLevelFromXp (Some (- 5)) = 1
   \<and> getLevelFromXp (Some 355000) = 20"
proof -
  have up: "(1000::int) < thresholds ! j" if "2 < j" "j < length thresholds" for j
  proof -
    have "thresholds ! 3 \<le> thresholds ! j"
      using that thresholds_nth_less [of 3 j] by (cases "j = 3") auto
    then show ?thesis by (simp add: thresholds_def)
  qed
  have "2 < length thresholds \<and> thresholds ! 2 \<le> (1000::int)
          \<and> (\<forall>j. 2 < j \<and> j < length thresholds \<longrightarrow> 1000 < thresholds ! j)"
    using up by (simp add: thresholds_def)
  then have "getLevelFromXp (Some 1000) = 2 + 1"
    using getLevelFromXp_highest_threshold [of 2 1000] by blast
  moreover have "getLevelFromXp (Some (- 5)) = 1"
    using getLevelFromXp_highest_threshold [of 0 "- 5"] by simp
  moreover have "19 < length thresholds \<and> thresholds ! 19 \<le> (355000::int)
          \<and> (\<forall>j. 19 < j \<and> j < length thresholds \<longrightarrow> 355000 < thresholds ! j)"
    by (simp add: thresholds_def)
  then have "getLevelFromXp (Some 355000) = 19 + 1"
    using getLevelFromXp_highest_threshold [of 19 355000] by blast
  ultimately show ?thesis by simp
qed

text \<open>
  Claim C5. An XP value at or above \<open>thresholds ! i\<close> gives a level of at least
  \<open>i + 1\<close>, and the level never decreases when the XP value grows.
\<close>

theorem getLevelFromXp_lower_bound_and_monotone:
  "(i < length thresholds \<and> thresholds ! i \<le> v \<longrightarrow> i + 1 \<le> getLevelFromXp (Some v))
   \<and> (x \<le> y \<longrightarrow> getLevelFromXp (Some x) \<le> getLevelFromXp (Some y))"
  unfolding getLevelFromXp_def
  using level_scan_lower [of i "length thresholds" thresholds v]
        level_scan_mono [of x y thresholds "length thresholds"]
  by blast

theorem getLevelFromXp_lower_bound_and_monotone_witness:
  "4 + 1 \<le> getLevelFromXp (Some 7000)
   \<and> getLevelFromXp (Some 299) \<le> getLevelFromXp (Some 300)"
proof -
  have "4 < length thresholds \<and> thresholds ! 4 \<le> (7000::int)"
    by (simp add: thresholds_def)
  moreover have "(299::int) \<le> 300" by simp
  ultimately show ?thesis
    using getLevelFromXp_lower_bound_and_monotone [of 4 7000 299 300] by blast
qed

section \<open>Properties of loading\<close>

lemma loadState_parse_failure:
  "raw \<noteq> [] \<Longrightarrow> json_parse raw = None \<Longrightarrow> loadState json_parse (Some raw) = parse_failure_state"
  by (simp add: loadState_def)

lemma loadState_fresh: "loadState json_parse None = fresh_install_state"
  by (simp add: loadState_def)

text \<open>
  Claim C8. The claim says that a stored string that fails to parse gives the state of
  a fresh install. In the code the two object literals differ: the fresh-install
  state has \<^verbatim>\<open>rolls: []\<close>, the state returned from \<^verbatim>\<open>catch\<close> has no key
  \<^verbatim>\<open>rolls\<close>. Evaluated at the stored string \<^verbatim>\<open>{\<close>, which no JSON parser
  accepts. Once a user has logged in on the state returned from \<^verbatim>\<open>catch\<close>, a
  dice roll throws at \<^verbatim>\<open>state.rolls.push\<close>.
\<close>

theorem loadState_parse_failure_lacks_rolls:
  "loadState (\<lambda>raw. None) (Some ''{'') = parse_failure_state
   \<and> rolls (loadState (\<lambda>raw. None) (Some ''{'')) = None
   \<and> rolls (loadState (\<lambda>raw. None) None) = Some []
   \<and> loadState (\<lambda>raw. None) (Some ''{'') \<noteq> loadState (\<lambda>raw. None) None
   \<and> rollDice (\<lambda>k n. 0) ''r1'' 1000 ''d6'' []
        (Some ((loadState (\<lambda>raw. None) (Some ''{''))
           \<lparr>users := Some [\<lparr>user_id = ''u1'', username = ''mira''\<rparr>],
            currentUserId := Some ''u1''\<rparr>))
       = Inl TypeError"
  by (simp add: loadState_def parse_failure_state_def fresh_install_state_def rollDice_def
      Let_def)

section \<open>Properties of voting\<close>

lemma js_get_js_set_same: "js_get (js_set xs i v) i = Some v"
  by (simp add: js_get_def js_set_def nth_append)

lemma js_get_js_set_other: "j \<noteq> i \<Longrightarrow> js_get (js_set xs i v) j = js_get xs j"
  by (auto simp: js_get_def js_set_def nth_append)

lemma remove1_absent: "count_list xs u \<le> 1 \<Longrightarrow> u \<notin> set (remove1 u xs)"
  by (induction xs) (auto simp: count_list_0_iff)

lemma distinct_count_list_le: "distinct xs \<Longrightarrow> count_list xs u \<le> 1"
  by (induction xs) (auto simp: count_list_0_iff)

lemma remove1_other: "v \<noteq> u \<Longrightarrow> (v \<in> set (remove1 u xs)) = (v \<in> set xs)"
  by (induction xs) auto

lemma votes_or_empty_handleVote:
  "votes_or_empty (handleVote p i vt st) i
     = push_vote vt (currentUserId st) (remove_user (currentUserId st) (votes_or_empty p i))"
  by (simp add: votes_or_empty_def handleVote_def Let_def js_get_js_set_same)

lemma handleVote_other_option:
  "j \<noteq> i \<Longrightarrow> js_get (votes (handleVote p i vt st)) j = js_get (votes p) j"
  by (simp add: handleVote_def Let_def js_get_js_set_other)

lemma bucket_push_remove:
  "bucket c (push_vote vt u (remove_user u b))
     = (if c = vt then remove1 u (bucket c b) @ [u] else remove1 u (bucket c b))"
  by (cases c; cases vt) (simp_all add: remove_user_def)

lemma exclusive_push_remove:
  assumes "exclusive_buckets b"
  shows "exclusive_buckets (push_vote vt u (remove_user u b))"
proof -
  from assms have d: "distinct (yes b)" "distinct (maybe b)" "distinct (no b)"
    and j: "set (yes b) \<inter> set (maybe b) = {}" "set (yes b) \<inter> set (no b) = {}"
       "set (maybe b) \<inter> set (no b) = {}"
    by (auto simp: exclusive_buckets_def)
  from d j show ?thesis
    by (cases vt) (auto simp: exclusive_buckets_def remove_user_def)
qed

lemma exclusive_empty: "exclusive_buckets empty_buckets"
  by (simp add: exclusive_buckets_def empty_buckets_def)

lemma list_all_js_set:
  "list_all P xs \<Longrightarrow> P None \<Longrightarrow> P (Some v) \<Longrightarrow> list_all P (js_set xs i v)"
  by (auto simp: js_set_def list_all_iff dest: set_update_subset_insert [THEN subsetD])

lemma js_get_list_all: "list_all P xs \<Longrightarrow> js_get xs i = Some b \<Longrightarrow> P (Some b)"
  by (auto simp: js_get_def list_all_length split: if_splits)

lemma handleVote_exclusive:
  assumes "votes_exclusive p"
  shows "votes_exclusive (handleVote p i vt st)"
proof -
  let ?P = "\<lambda>e. case e of None \<Rightarrow> True | Some b \<Rightarrow> exclusive_buckets b"
  have "exclusive_buckets (votes_or_empty p i)"
  proof (cases "js_get (votes p) i")
    case None
    then show ?thesis by (simp add: votes_or_empty_def exclusive_empty)
  next
    case (Some b)
    with assms js_get_list_all [of ?P "votes p" i b] show ?thesis
      by (simp add: votes_or_empty_def votes_exclusive_def)
  qed
  then have "?P (Some (push_vote vt (currentUserId st)
                  (remove_user (currentUserId st) (votes_or_empty p i))))"
    by (simp add: exclusive_push_remove)
  with assms show ?thesis
    unfolding votes_exclusive_def handleVote_def Let_def votes_or_empty_def
    by (simp add: list_all_js_set)
qed

lemma votes_exclusive_at_most_once:
  assumes "votes_exclusive p"
  shows "count_list (bucket c (votes_or_empty p i)) u \<le> 1"
proof -
  have "exclusive_buckets (votes_or_empty p i)"
  proof (cases "js_get (votes p) i")
    case None
    then show ?thesis by (simp add: votes_or_empty_def exclusive_empty)
  next
    case (Some b)
    with assms js_get_list_all
      [of "\<lambda>e. case e of None \<Rightarrow> True | Some b \<Rightarrow> exclusive_buckets b" "votes p" i b]
    show ?thesis
      by (simp add: votes_or_empty_def votes_exclusive_def)
  qed
  then have "distinct (bucket c (votes_or_empty p i))"
    by (cases c) (simp_all add: exclusive_buckets_def)
  then show ?thesis
    by (rule distinct_count_list_le)
qed

lemma new_proposal_votes_exclusive: "votes_exclusive (new_proposal new_id campId opts)"
  by (simp add: votes_exclusive_def new_proposal_def list_all_iff exclusive_empty)

lemma bucket_count_one:
  assumes "u \<in> set (bucket vt b)" and "\<forall>c. c \<noteq> vt \<longrightarrow> u \<notin> set (bucket c b)"
  shows "bucket_count u b = 1"
proof (cases vt)
  case VoteYes
  with assms(1) assms(2) [rule_format, of VoteMaybe] assms(2) [rule_format, of VoteNo]
  show ?thesis by (simp add: bucket_count_def)
next
  case VoteMaybe
  with assms(1) assms(2) [rule_format, of VoteYes] assms(2) [rule_format, of VoteNo]
  show ?thesis by (simp add: bucket_count_def)
next
  case VoteNo
  with assms(1) assms(2) [rule_format, of VoteYes] assms(2) [rule_format, of VoteMaybe]
  show ?thesis by (simp add: bucket_count_def)
qed

lemma exclusive_bucket_count: "exclusive_buckets b \<Longrightarrow> bucket_count u b \<le> 1"
  by (auto simp: exclusive_buckets_def bucket_count_def)

lemma votes_exclusive_option:
  assumes "votes_exclusive p"
  shows "exclusive_buckets (votes_or_empty p i)"
proof (cases "js_get (votes p) i")
  case None
  then show ?thesis by (simp add: votes_or_empty_def exclusive_empty)
next
  case (Some b)
  with assms js_get_list_all
    [of "\<lambda>e. case e of None \<Rightarrow> True | Some b \<Rightarrow> exclusive_buckets b" "votes p" i b]
  show ?thesis
    by (simp add: votes_or_empty_def votes_exclusive_def)
qed

lemma finalize_proposal_votes_exclusive:
  "votes_exclusive p \<Longrightarrow> votes_exclusive (finalize_proposal idx p)"
  by (simp add: votes_exclusive_def finalize_proposal_def)

lemma reachable_votes_exclusive: "reachable_proposal p \<Longrightarrow> votes_exclusive p"
proof (induction rule: reachable_proposal.induct)
  case (created new_id campId opts)
  show ?case by (rule new_proposal_votes_exclusive)
next
  case (voted p optionIndex voteType st)
  then show ?case by (simp add: handleVote_exclusive)
next
  case (finalised p idx)
  then show ?case by (simp add: finalize_proposal_votes_exclusive)
qed

lemma handleVote_at_most_once:
  assumes "\<forall>c. count_list (bucket c (votes_or_empty p i)) (currentUserId st) \<le> 1"
  shows "currentUserId st \<in> set (bucket vt (votes_or_empty (handleVote p i vt st) i))
   \<and> (\<forall>c. c \<noteq> vt \<longrightarrow>
          currentUserId st \<notin> set (bucket c (votes_or_empty (handleVote p i vt st) i)))
   \<and> bucket_count (currentUserId st) (votes_or_empty (handleVote p i vt st) i) = 1
   \<and> (\<forall>v c. v \<noteq> currentUserId st \<longrightarrow>
          (v \<in> set (bucket c (votes_or_empty (handleVote p i vt st) i)))
            = (v \<in> set (bucket c (votes_or_empty p i))))
   \<and> (\<forall>j. j \<noteq> i \<longrightarrow> js_get (votes (handleVote p i vt st)) j = js_get (votes p) j)"
proof -
  let ?u = "currentUserId st"
  let ?b = "votes_or_empty p i"
  let ?b' = "votes_or_empty (handleVote p i vt st) i"
  have b': "?b' = push_vote vt ?u (remove_user ?u ?b)"
    by (rule votes_or_empty_handleVote)
  have gone: "?u \<notin> set (remove1 ?u (bucket c ?b))" for c
    using assms by (intro remove1_absent) simp
  have 1: "?u \<in> set (bucket vt ?b')"
    by (simp add: b' bucket_push_remove)
  have 2: "\<forall>c. c \<noteq> vt \<longrightarrow> ?u \<notin> set (bucket c ?b')"
    using gone by (simp add: b' bucket_push_remove)
  have 3: "bucket_count ?u ?b' = 1"
    using 1 2 by (rule bucket_count_one)
  have 4: "\<forall>v c. v \<noteq> ?u \<longrightarrow> (v \<in> set (bucket c ?b')) = (v \<in> set (bucket c ?b))"
    by (simp add: b' bucket_push_remove remove1_other)
  have 5: "\<forall>j. j \<noteq> i \<longrightarrow> js_get (votes (handleVote p i vt st)) j = js_get (votes p) j"
    by (simp add: handleVote_other_option)
  from 1 2 3 4 5 show ?thesis by blast
qed

text \<open>
  Claim C1. Every proposal the application can hold satisfies the invariant of the vote
  buckets: a proposal starts with empty buckets and only \<open>handleVote\<close> writes to them.
  For every proposal that satisfies the invariant, every option index, user and vote
  category, after \<open>handleVote\<close> the user's identifier is in the bucket of the vote
  cast and in neither of the other two of that option; the other users and the other
  options are left as they were. The invariant holds again after the vote, so that
  every identifier is in at most one bucket of every option.
\<close>

theorem handleVote_exclusive_vote:
  "(reachable_proposal p \<longrightarrow> votes_exclusive p)
   \<and> (reachable_proposal p \<longrightarrow> reachable_proposal (handleVote p i vt st))
   \<and> (votes_exclusive p \<longrightarrow>
        currentUserId st \<in> set (bucket vt (votes_or_empty (handleVote p i vt st) i))
        \<and> (\<forall>c. c \<noteq> vt \<longrightarrow>
              currentUserId st \<notin> set (bucket c (votes_or_empty (handleVote p i vt st) i)))
        \<and> bucket_count (currentUserId st) (votes_or_empty (handleVote p i vt st) i) = 1
        \<and> (\<forall>v c. v \<noteq> currentUserId st \<longrightarrow>
              (v \<in> set (bucket c (votes_or_empty (handleVote p i vt st) i)))
                = (v \<in> set (bucket c (votes_or_empty p i))))
        \<and> (\<forall>j. j \<noteq> i \<longrightarrow> js_get (votes (handleVote p i vt st)) j = js_get (votes p) j)
        \<and> votes_exclusive (handleVote p i vt st)
        \<and> (\<forall>v j. bucket_count v (votes_or_empty (handleVote p i vt st) j) \<le> 1))"
proof -
  have a: "votes_exclusive p" if "reachable_proposal p"
    using that by (rule reachable_votes_exclusive)
  have b: "reachable_proposal (handleVote p i vt st)" if "reachable_proposal p"
    using that by (rule reachable_proposal.voted)
  have c: "currentUserId st \<in> set (bucket vt (votes_or_empty (handleVote p i vt st) i))
        \<and> (\<forall>c. c \<noteq> vt \<longrightarrow>
              currentUserId st \<notin> set (bucket c (votes_or_empty (handleVote p i vt st) i)))
        \<and> bucket_count (currentUserId st) (votes_or_empty (handleVote p i vt st) i) = 1
        \<and> (\<forall>v c. v \<noteq> currentUserId st \<longrightarrow>
              (v \<in> set (bucket c (votes_or_empty (handleVote p i vt st) i)))
                = (v \<in> set (bucket c (votes_or_empty p i))))
        \<and> (\<forall>j. j \<noteq> i \<longrightarrow> js_get (votes (handleVote p i vt st)) j = js_get (votes p) j)"
    if "votes_exclusive p"
  proof (rule handleVote_at_most_once)
    show "\<forall>c. count_list (bucket c (votes_or_empty p i)) (currentUserId st) \<le> 1"
      by (intro allI votes_exclusive_at_most_once that)
  qed
  have d: "votes_exclusive (handleVote p i vt st)" if "votes_exclusive p"
    using that by (rule handleVote_exclusive)
  have e: "\<forall>v j. bucket_count v (votes_or_empty (handleVote p i vt st) j) \<le> 1"
    if "votes_exclusive p"
    by (intro allI exclusive_bucket_count votes_exclusive_option d that)
  from a b c d e show ?thesis by blast
qed

theorem handleVote_exclusive_vote_witness:
  "reachable_proposal
     (handleVote
        (handleVote
           (new_proposal ''p1'' ''c1''
              [\<lparr>date = ''2025-08-02'', start = ''18:00'', slot_end = ''22:00'',
                location = Some ''Inn''\<rparr>])
           0 VoteYes (fresh_install_state\<lparr>currentUserId := Some ''alice''\<rparr>))
        0 VoteMaybe (fresh_install_state\<lparr>currentUserId := Some ''bob''\<rparr>))
   \<and> votes_or_empty
       (handleVote
          (handleVote
             (new_proposal ''p1'' ''c1''
                [\<lparr>date = ''2025-08-02'', start = ''18:00'', slot_end = ''22:00'',
                  location = Some ''Inn''\<rparr>])
             0 VoteYes (fresh_install_state\<lparr>currentUserId := Some ''alice''\<rparr>))
          0 VoteMaybe (fresh_install_state\<lparr>currentUserId := Some ''bob''\<rparr>)) 0
       = \<lparr>yes = [Some ''alice''], maybe = [Some ''bob''], no = []\<rparr>
   \<and> Some ''alice'' \<in> set (no (votes_or_empty
        (handleVote
           (handleVote
              (handleVote
                 (new_proposal ''p1'' ''c1''
                    [\<lparr>date = ''2025-08-02'', start = ''18:00'', slot_end = ''22:00'',
                      location = Some ''Inn''\<rparr>])
                 0 VoteYes (fresh_install_state\<lparr>currentUserId := Some ''alice''\<rparr>))
              0 VoteMaybe (fresh_install_state\<lparr>currentUserId := Some ''bob''\<rparr>))
           0 VoteNo (fresh_install_state\<lparr>currentUserId := Some ''alice''\<rparr>)) 0))
   \<and> Some ''alice'' \<notin> set (yes (votes_or_empty
        (handleVote
           (handleVote
              (handleVote
                 (new_proposal ''p1'' ''c1''
                    [\<lparr>date = ''2025-08-02'', start = ''18:00'', slot_end = ''22:00'',
                      location = Some ''Inn''\<rparr>])
                 0 VoteYes (fresh_install_state\<lparr>currentUserId := Some ''alice''\<rparr>))
              0 VoteMaybe (fresh_install_state\<lparr>currentUserId := Some ''bob''\<rparr>))
           0 VoteNo (fresh_install_state\<lparr>currentUserId := Some ''alice''\<rparr>)) 0))
   \<and> Some ''bob'' \<in> set (maybe (votes_or_empty
        (handleVote
           (handleVote
              (handleVote
                 (new_proposal ''p1'' ''c1''
                    [\<lparr>date = ''2025-08-02'', start = ''18:00'', slot_end = ''22:00'',
                      location = Some ''Inn''\<rparr>])
                 0 VoteYes (fresh_install_state\<lparr>currentUserId := Some ''alice''\<rparr>))
              0 VoteMaybe (fresh_install_state\<lparr>currentUserId := Some ''bob''\<rparr>))
           0 VoteNo (fresh_install_state\<lparr>currentUserId := Some ''alice''\<rparr>)) 0))"
proof -
  let ?stA = "fresh_install_state\<lparr>currentUserId := Some ''alice''\<rparr>"
  let ?stB = "fresh_install_state\<lparr>currentUserId := Some ''bob''\<rparr>"
  let ?q = "new_proposal ''p1'' ''c1''
                [\<lparr>date = ''2025-08-02'', start = ''18:00'', slot_end = ''22:00'',
                  location = Some ''Inn''\<rparr>]"
  let ?p = "handleVote (handleVote ?q 0 VoteYes ?stA) 0 VoteMaybe ?stB"
  have r: "reachable_proposal ?p"
    by (intro reachable_proposal.voted reachable_proposal.created)
  have b0: "votes_or_empty ?q 0 = empty_buckets"
    by (simp add: votes_or_empty_def new_proposal_def js_get_def)
  have b: "votes_or_empty ?p 0 = \<lparr>yes = [Some ''alice''], maybe = [Some ''bob''], no = []\<rparr>"
    by (simp only: votes_or_empty_handleVote b0) (simp add: empty_buckets_def remove_user_def)
  have u: "currentUserId ?stA = Some ''alice''"
    by simp
  note t = handleVote_exclusive_vote [of ?p 0 VoteNo ?stA]
  from t r have x: "votes_exclusive ?p"
    by (rule conjunct1 [THEN mp])
  note c = t [THEN conjunct2, THEN conjunct2, rule_format, OF x]
  note c1 = c [THEN conjunct1]
  note c2 = c [THEN conjunct2, THEN conjunct1, rule_format, of VoteYes]
  note c4 = c [THEN conjunct2, THEN conjunct2, THEN conjunct2, THEN conjunct1, rule_format,
      of "Some ''bob''" VoteMaybe]
  from c1 have 1: "Some ''alice'' \<in> set (no (votes_or_empty (handleVote ?p 0 VoteNo ?stA) 0))"
    by (simp only: u bucket.simps)
  from c2 have 2: "Some ''alice'' \<notin> set (yes (votes_or_empty (handleVote ?p 0 VoteNo ?stA) 0))"
    by (simp only: u bucket.simps) simp
  from c4 have 3: "Some ''bob'' \<in> set (maybe (votes_or_empty (handleVote ?p 0 VoteNo ?stA) 0))"
    unfolding u bucket.simps b by simp
  from r b 1 2 3 show ?thesis
    by (intro conjI)
qed

section \<open>Properties of finalization\<close>

lemma update_proposal_twice:
  "update_proposal (update_proposal st pi f) pi f = update_proposal st pi (f \<circ> f)"
  by (simp add: update_proposal_def split: option.splits)

lemma finalize_proposal_twice:
  "finalize_proposal idx (finalize_proposal idx p) = finalize_proposal idx p"
  by (simp add: finalize_proposal_def)

lemma update_proposal_map:
  assumes "\<And>p. g (f p) = g p"
  shows "map_option (map g) (proposals (update_proposal st pi f))
           = map_option (map g) (proposals st)"
proof (cases "proposals st")
  case None
  then show ?thesis by (simp add: update_proposal_def)
next
  case (Some ps)
  have "map g (ps[pi := f (ps ! pi)]) = map g ps" if "pi < length ps"
    using that assms by (simp add: map_update list_update_same_conv)
  with Some show ?thesis by (simp add: update_proposal_def)
qed

lemma handleVote_keeps_outcome:
  "finalized (handleVote p i vt st) = finalized p"
  "finalChoiceIndex (handleVote p i vt st) = finalChoiceIndex p"
  by (simp_all add: handleVote_def Let_def)

lemma update_proposal_rest:
  "users (update_proposal st pi f) = users st"
  "campaigns (update_proposal st pi f) = campaigns st"
  "sessions (update_proposal st pi f) = sessions st"
  "characters (update_proposal st pi f) = characters st"
  "rolls (update_proposal st pi f) = rolls st"
  "currentUserId (update_proposal st pi f) = currentUserId st"
  "currentCampaignId (update_proposal st pi f) = currentCampaignId st"
  by (simp_all add: update_proposal_def split: option.splits)

lemma finalize_click_twice:
  "finalize_click (finalize_click st pi idx) pi idx = finalize_click st pi idx"
proof -
  have "finalize_proposal idx \<circ> finalize_proposal idx = finalize_proposal idx"
    by (rule ext) (simp add: finalize_proposal_twice)
  then show ?thesis
    by (simp add: finalize_click_def update_proposal_twice)
qed

lemma vote_click_keeps_outcome:
  "map_option (map finalized) (proposals (vote_click st pj j vt))
     = map_option (map finalized) (proposals st)"
  "map_option (map finalChoiceIndex) (proposals (vote_click st pj j vt))
     = map_option (map finalChoiceIndex) (proposals st)"
  unfolding vote_click_def
  by (rule update_proposal_map, simp add: handleVote_keeps_outcome)+

lemma finalize_click_pushing_once:
  assumes "proposals st = Some ps" "pi < length ps" "idx < length (options (ps ! pi))"
    and "sessions st = Some ss"
  shows "finalize_click_pushing parse_date new_id cid st pi idx
           = Inr (st\<lparr>proposals := Some (ps[pi := finalize_proposal idx (ps ! pi)]),
                     sessions := Some (ss @ [slot_session parse_date new_id cid
                                               (options (ps ! pi) ! idx)])\<rparr>)"
  using assms by (simp add: finalize_click_pushing_def update_proposal_def Let_def)

lemma finalize_click_pushing_again:
  assumes "proposals st = Some ps" "pi < length ps" "idx < length (options (ps ! pi))"
    and "sessions st = Some ss"
  shows "finalize_click_pushing parse_date id2 cid
           (st\<lparr>proposals := Some (ps[pi := finalize_proposal idx (ps ! pi)]),
                sessions := Some (ss @ [s1])\<rparr>) pi idx
           = Inr (st\<lparr>proposals := Some (ps[pi := finalize_proposal idx (ps ! pi)]),
                     sessions := Some (ss @ [s1, slot_session parse_date id2 cid
                                                    (options (ps ! pi) ! idx)])\<rparr>)"
proof -
  let ?ps = "ps[pi := finalize_proposal idx (ps ! pi)]"
  let ?st = "st\<lparr>proposals := Some ?ps, sessions := Some (ss @ [s1])\<rparr>"
  have o: "options (?ps ! pi) = options (ps ! pi)"
    using assms(2) by (simp add: finalize_proposal_def)
  have "finalize_click_pushing parse_date id2 cid ?st pi idx
          = Inr (?st\<lparr>proposals := Some (?ps[pi := finalize_proposal idx (?ps ! pi)]),
                      sessions := Some ((ss @ [s1]) @ [slot_session parse_date id2 cid
                                               (options (?ps ! pi) ! idx)])\<rparr>)"
    using assms(2,3) o by (intro finalize_click_pushing_once) simp_all
  also have "?ps[pi := finalize_proposal idx (?ps ! pi)] = ?ps"
    using assms(2) by (simp add: finalize_proposal_twice)
  finally show ?thesis
    by (simp add: o)
qed

text \<open>
  Claim C2, as stated, on the Finalize handler of the earlier variant, which pushes a
  session on \<^verbatim>\<open>state.sessions\<close> at every call: a second call on the same option
  leaves a state with two session entries where one call leaves one, whether the
  second call draws a new identifier or not.
\<close>

theorem finalize_click_pushing_twice_counterexample:
  "finalize_click_pushing (\<lambda>s. None) ''s1'' ''c1''
      (fresh_install_state\<lparr>proposals := Some
         [\<lparr>proposal_id = ''p1'', p_campaignId = ''c1'', finalized = False,
           finalChoiceIndex = None,
           options = [\<lparr>date = ''2025-08-02'', start = ''18:00'', slot_end = ''22:00'',
                       location = Some ''Inn''\<rparr>],
           votes = [Some empty_buckets]\<rparr>]\<rparr>) 0 0
     = Inr (fresh_install_state\<lparr>proposals := Some
         [\<lparr>proposal_id = ''p1'', p_campaignId = ''c1'', finalized = True,
           finalChoiceIndex = Some 0,
           options = [\<lparr>date = ''2025-08-02'', start = ''18:00'', slot_end = ''22:00'',
                       location = Some ''Inn''\<rparr>],
           votes = [Some empty_buckets]\<rparr>],
         sessions := Some
           [\<lparr>session_id = ''s1'', datetime = DateObject None, s_campaignId = ''c1'',
             session_end = Some ''22:00'', s_location = Some ''Inn''\<rparr>]\<rparr>)
   \<and> finalize_click_pushing (\<lambda>s. None) ''s2'' ''c1''
      (fresh_install_state\<lparr>proposals := Some
         [\<lparr>proposal_id = ''p1'', p_campaignId = ''c1'', finalized = True,
           finalChoiceIndex = Some 0,
           options = [\<lparr>date = ''2025-08-02'', start = ''18:00'', slot_end = ''22:00'',
                       location = Some ''Inn''\<rparr>],
           votes = [Some empty_buckets]\<rparr>],
         sessions := Some
           [\<lparr>session_id = ''s1'', datetime = DateObject None, s_campaignId = ''c1'',
             session_end = Some ''22:00'', s_location = Some ''Inn''\<rparr>]\<rparr>) 0 0
     = Inr (fresh_install_state\<lparr>proposals := Some
         [\<lparr>proposal_id = ''p1'', p_campaignId = ''c1'', finalized = True,
           finalChoiceIndex = Some 0,
           options = [\<lparr>date = ''2025-08-02'', start = ''18:00'', slot_end = ''22:00'',
                       location = Some ''Inn''\<rparr>],
           votes = [Some empty_buckets]\<rparr>],
         sessions := Some
           [\<lparr>session_id = ''s1'', datetime = DateObject None, s_campaignId = ''c1'',
             session_end = Some ''22:00'', s_location = Some ''Inn''\<rparr>,
            \<lparr>session_id = ''s2'', datetime = DateObject None, s_campaignId = ''c1'',
             session_end = Some ''22:00'', s_location = Some ''Inn''\<rparr>]\<rparr>)
   \<and> finalize_click_pushing (\<lambda>s. None) ''s1'' ''c1''
      (fresh_install_state\<lparr>proposals := Some
         [\<lparr>proposal_id = ''p1'', p_campaignId = ''c1'', finalized = True,
           finalChoiceIndex = Some 0,
           options = [\<lparr>date = ''2025-08-02'', start = ''18:00'', slot_end = ''22:00'',
                       location = Some ''Inn''\<rparr>],
           votes = [Some empty_buckets]\<rparr>],
         sessions := Some
           [\<lparr>session_id = ''s1'', datetime = DateObject None, s_campaignId = ''c1'',
             session_end = Some ''22:00'', s_location = Some ''Inn''\<rparr>]\<rparr>) 0 0
     \<noteq> Inr (fresh_install_state\<lparr>proposals := Some
         [\<lparr>proposal_id = ''p1'', p_campaignId = ''c1'', finalized = True,
           finalChoiceIndex = Some 0,
           options = [\<lparr>date = ''2025-08-02'', start = ''18:00'', slot_end = ''22:00'',
                       location = Some ''Inn''\<rparr>],
           votes = [Some empty_buckets]\<rparr>],
         sessions := Some
           [\<lparr>session_id = ''s1'', datetime = DateObject None, s_campaignId = ''c1'',
             session_end = Some ''22:00'', s_location = Some ''Inn''\<rparr>]\<rparr>)"
  by (simp add: finalize_click_pushing_def update_proposal_def finalize_proposal_def
      slot_session_def fresh_install_state_def Let_def)

text \<open>
  Claim C2, amended. With the Finalize handler of app.js, finalizing the same option
  twice gives the state that finalizing it once gives. With the handler of the earlier
  variant, a repeated call leaves the proposals as the first call left them and appends
  one more session entry to the sessions. With either, a vote changes neither the
  finalized flag nor the chosen option index of any proposal.
\<close>

theorem finalize_twice_and_votes_keep_outcome:
  "finalize_click (finalize_click st pi idx) pi idx = finalize_click st pi idx
   \<and> map_option (map finalized) (proposals (vote_click st pj j vt))
       = map_option (map finalized) (proposals st)
   \<and> map_option (map finalChoiceIndex) (proposals (vote_click st pj j vt))
       = map_option (map finalChoiceIndex) (proposals st)
   \<and> (proposals st = Some ps \<and> pi < length ps \<and> idx < length (options (ps ! pi))
        \<and> sessions st = Some ss \<longrightarrow>
        finalize_click_pushing parse_date id1 cid st pi idx
          = Inr (st\<lparr>proposals := Some (ps[pi := finalize_proposal idx (ps ! pi)]),
                    sessions := Some (ss @ [slot_session parse_date id1 cid
                                              (options (ps ! pi) ! idx)])\<rparr>)
        \<and> finalize_click_pushing parse_date id2 cid
            (st\<lparr>proposals := Some (ps[pi := finalize_proposal idx (ps ! pi)]),
                 sessions := Some (ss @ [slot_session parse_date id1 cid
                                           (options (ps ! pi) ! idx)])\<rparr>) pi idx
          = Inr (st\<lparr>proposals := Some (ps[pi := finalize_proposal idx (ps ! pi)]),
                    sessions := Some (ss @ [slot_session parse_date id1 cid
                                              (options (ps ! pi) ! idx),
                                            slot_session parse_date id2 cid
                                              (options (ps ! pi) ! idx)])\<rparr>))"
  using finalize_click_twice [of st pi idx] vote_click_keeps_outcome [of st pj j vt]
    finalize_click_pushing_once [of st ps pi idx ss parse_date id1 cid]
    finalize_click_pushing_again [of st ps pi idx ss parse_date id2 cid
      "slot_session parse_date id1 cid (options (ps ! pi) ! idx)"]
  by blast

theorem finalize_twice_and_votes_keep_outcome_witness:
  "finalize_click
     (finalize_click
        (fresh_install_state\<lparr>proposals := Some
           [\<lparr>proposal_id = ''p1'', p_campaignId = ''c1'', finalized = False,
             finalChoiceIndex = None,
             options = [\<lparr>date = ''2025-08-02'', start = ''18:00'', slot_end = ''22:00'',
                         location = Some ''Inn''\<rparr>],
             votes = [Some empty_buckets]\<rparr>]\<rparr>) 0 0) 0 0
     = fresh_install_state\<lparr>proposals := Some
           [\<lparr>proposal_id = ''p1'', p_campaignId = ''c1'', finalized = True,
             finalChoiceIndex = Some 0,
             options = [\<lparr>date = ''2025-08-02'', start = ''18:00'', slot_end = ''22:00'',
                         location = Some ''Inn''\<rparr>],
             votes = [Some empty_buckets]\<rparr>]\<rparr>
   \<and> finalize_click_pushing (\<lambda>s. None) ''s1'' ''c1''
        (fresh_install_state\<lparr>proposals := Some
           [\<lparr>proposal_id = ''p1'', p_campaignId = ''c1'', finalized = False,
             finalChoiceIndex = None,
             options = [\<lparr>date = ''2025-08-02'', start = ''18:00'', slot_end = ''22:00'',
                         location = Some ''Inn''\<rparr>],
             votes = [Some empty_buckets]\<rparr>]\<rparr>) 0 0
     = Inr (fresh_install_state\<lparr>proposals := Some
           [\<lparr>proposal_id = ''p1'', p_campaignId = ''c1'', finalized = True,
             finalChoiceIndex = Some 0,
             options = [\<lparr>date = ''2025-08-02'', start = ''18:00'', slot_end = ''22:00'',
                         location = Some ''Inn''\<rparr>],
             votes = [Some empty_buckets]\<rparr>],
           sessions := Some
             [\<lparr>session_id = ''s1'', datetime = DateObject None, s_campaignId = ''c1'',
               session_end = Some ''22:00'', s_location = Some ''Inn''\<rparr>]\<rparr>)"
proof -
  let ?p = "\<lparr>proposal_id = ''p1'', p_campaignId = ''c1'', finalized = False,
             finalChoiceIndex = None,
             options = [\<lparr>date = ''2025-08-02'', start = ''18:00'', slot_end = ''22:00'',
                         location = Some ''Inn''\<rparr>],
             votes = [Some empty_buckets]\<rparr>"
  let ?st = "fresh_install_state\<lparr>proposals := Some [?p]\<rparr>"
  note t = finalize_twice_and_votes_keep_outcome
    [where st = ?st and pi = 0 and idx = 0 and ps = "[?p]" and ss = "[]"
       and parse_date = "\<lambda>s. None" and ?id1.0 = "''s1''" and cid = "''c1''"]
  have h: "proposals ?st = Some [?p] \<and> 0 < length [?p] \<and> 0 < length (options ([?p] ! 0))
            \<and> sessions ?st = Some []"
    by (simp add: fresh_install_state_def)
  have once: "finalize_click ?st 0 0
      = fresh_install_state\<lparr>proposals := Some [finalize_proposal 0 ?p]\<rparr>"
    by (simp add: finalize_click_def update_proposal_def fresh_install_state_def)
  from t [THEN conjunct1] once
  have a: "finalize_click (finalize_click ?st 0 0) 0 0
      = fresh_install_state\<lparr>proposals := Some [finalize_proposal 0 ?p]\<rparr>"
    by simp
  from t [THEN conjunct2, THEN conjunct2, THEN conjunct2, rule_format, OF h, THEN conjunct1]
  have b: "finalize_click_pushing (\<lambda>s. None) ''s1'' ''c1'' ?st 0 0
      = Inr (?st\<lparr>proposals := Some ([?p][0 := finalize_proposal 0 ([?p] ! 0)]),
                   sessions := Some ([] @ [slot_session (\<lambda>s. None) ''s1'' ''c1''
                                              (options ([?p] ! 0) ! 0)])\<rparr>)" .
  from a b show ?thesis
    by (simp add: finalize_proposal_def slot_session_def fresh_install_state_def)
qed

section \<open>Properties of the session listing\<close>

lemma add_legacy_extends:
  "\<exists>kept. add_legacy pd acc ss = acc @ kept \<and> set kept \<subseteq> set ss"
proof (induction ss arbitrary: acc)
  case Nil
  then show ?case by simp
next
  case (Cons s ss)
  show ?case
  proof (cases "list_ex (\<lambda>existing. is_duplicate pd existing s) acc")
    case True
    with Cons.IH [of acc] show ?thesis by auto
  next
    case False
    from Cons.IH [of "acc @ [s]"] obtain kept
      where "add_legacy pd (acc @ [s]) ss = (acc @ [s]) @ kept" "set kept \<subseteq> set ss"
      by blast
    with False have "add_legacy pd acc (s # ss) = acc @ (s # kept) \<and> set (s # kept) \<subseteq> set (s # ss)"
      by auto
    then show ?thesis by blast
  qed
qed

lemma add_legacy_take: "take (length acc) (add_legacy pd acc ss) = acc"
  using add_legacy_extends [of pd acc ss] by auto

lemma add_legacy_length: "length acc \<le> length (add_legacy pd acc ss)"
  using add_legacy_extends [of pd acc ss] by auto

lemma add_legacy_subset: "set (add_legacy pd acc ss) \<subseteq> set acc \<union> set ss"
  using add_legacy_extends [of pd acc ss] by auto

lemma add_legacy_keeps: "set acc \<subseteq> set (add_legacy pd acc ss)"
  using add_legacy_extends [of pd acc ss] by auto

lemma add_legacy_covers:
  "s \<in> set ss \<Longrightarrow>
     s \<in> set (add_legacy pd acc ss) \<or> list_ex (\<lambda>e. is_duplicate pd e s) (add_legacy pd acc ss)"
proof (induction ss arbitrary: acc)
  case Nil
  then show ?case by simp
next
  case (Cons x ss)
  let ?acc = "if list_ex (\<lambda>existing. is_duplicate pd existing x) acc then acc else acc @ [x]"
  show ?case
  proof (cases "s = x")
    case True
    have sub: "set ?acc \<subseteq> set (add_legacy pd ?acc ss)"
      by (rule add_legacy_keeps)
    show ?thesis
    proof (cases "list_ex (\<lambda>existing. is_duplicate pd existing x) acc")
      case dup: True
      with sub True show ?thesis by (auto simp: list_ex_iff)
    next
      case False
      with sub True show ?thesis by auto
    qed
  next
    case False
    with Cons.prems have "s \<in> set ss" by simp
    from Cons.IH [OF this, of ?acc] show ?thesis by simp
  qed
qed

lemma add_legacy_no_later_duplicate:
  assumes "\<forall>i j. i < j \<and> j < length acc \<and> n \<le> j \<longrightarrow> \<not> is_duplicate pd (acc ! i) (acc ! j)"
  shows "\<forall>i j. i < j \<and> j < length (add_legacy pd acc ss) \<and> n \<le> j
           \<longrightarrow> \<not> is_duplicate pd (add_legacy pd acc ss ! i) (add_legacy pd acc ss ! j)"
  using assms
proof (induction ss arbitrary: acc)
  case Nil
  then show ?case by simp
next
  case (Cons s ss)
  show ?case
  proof (cases "list_ex (\<lambda>existing. is_duplicate pd existing s) acc")
    case True
    with Cons.IH [OF Cons.prems] show ?thesis by simp
  next
    case False
    have "\<forall>i j. i < j \<and> j < length (acc @ [s]) \<and> n \<le> j
            \<longrightarrow> \<not> is_duplicate pd ((acc @ [s]) ! i) ((acc @ [s]) ! j)"
    proof (intro allI impI)
      fix i j
      assume ij: "i < j \<and> j < length (acc @ [s]) \<and> n \<le> j"
      show "\<not> is_duplicate pd ((acc @ [s]) ! i) ((acc @ [s]) ! j)"
      proof (cases "j < length acc")
        case True
        with ij Cons.prems show ?thesis by (simp add: nth_append)
      next
        case jl: False
        with ij have j: "j = length acc" by simp
        with ij have "acc ! i \<in> set acc" by simp
        with False have "\<not> is_duplicate pd (acc ! i) s" by (auto simp: list_ex_iff)
        with j ij show ?thesis by (simp add: nth_append)
      qed
    qed
    from Cons.IH [OF this] False show ?thesis by simp
  qed
qed

lemma scheduledSessions_value:
  assumes "proposals st = Some ps" "sessions st = Some ss"
    and "finalised_sessions pd cid (filter (\<lambda>p. p_campaignId p = cid \<and> finalized p) ps) = Inr fs"
  shows "scheduledSessions pd st cid
           = Inr (add_legacy pd fs (filter (\<lambda>s. s_campaignId s = cid) ss))"
  using assms by (simp add: scheduledSessions_def)

lemma finalised_sessions_length:
  "finalised_sessions pd cid ps = Inr fs \<Longrightarrow> map session_id fs = map proposal_id ps"
  by (induction ps arbitrary: fs)
    (auto simp: slot_session_def split: option.splits if_splits sum.splits)

text \<open>
  Claim C6, as stated, at a campaign with two finalised proposals whose chosen options
  have the same date, start and location: the entries of finalised proposals are pushed
  without any test, so both are listed although they are duplicates of each other.
\<close>

theorem scheduledSessions_two_proposals_counterexample:
  "scheduledSessions
      (\<lambda>s. if s = ''2025-08-02T18:00''
            then Some \<lparr>year = 2025, month = 7, day_of_month = 2, hours = 18, minutes = 0,
                       seconds = 0\<rparr>
            else None)
      (fresh_install_state\<lparr>proposals := Some
         [\<lparr>proposal_id = ''p1'', p_campaignId = ''c1'', finalized = True,
           finalChoiceIndex = Some 0,
           options = [\<lparr>date = ''2025-08-02'', start = ''18:00'', slot_end = ''22:00'',
                       location = Some ''Inn''\<rparr>],
           votes = [Some empty_buckets]\<rparr>,
          \<lparr>proposal_id = ''p2'', p_campaignId = ''c1'', finalized = True,
           finalChoiceIndex = Some 0,
           options = [\<lparr>date = ''2025-08-02'', start = ''18:00'', slot_end = ''22:00'',
                       location = Some ''Inn''\<rparr>],
           votes = [Some empty_buckets]\<rparr>]\<rparr>)
      ''c1''
     = Inr [\<lparr>session_id = ''p1'',
             datetime = DateObject (Some \<lparr>year = 2025, month = 7, day_of_month = 2,
                                           hours = 18, minutes = 0, seconds = 0\<rparr>),
             s_campaignId = ''c1'', session_end = Some ''22:00'', s_location = Some ''Inn''\<rparr>,
            \<lparr>session_id = ''p2'',
             datetime = DateObject (Some \<lparr>year = 2025, month = 7, day_of_month = 2,
                                           hours = 18, minutes = 0, seconds = 0\<rparr>),
             s_campaignId = ''c1'', session_end = Some ''22:00'', s_location = Some ''Inn''\<rparr>]
   \<and> is_duplicate (\<lambda>s. None)
        \<lparr>session_id = ''p1'',
          datetime = DateObject (Some \<lparr>year = 2025, month = 7, day_of_month = 2,
                                        hours = 18, minutes = 0, seconds = 0\<rparr>),
          s_campaignId = ''c1'', session_end = Some ''22:00'', s_location = Some ''Inn''\<rparr>
        \<lparr>session_id = ''p2'',
          datetime = DateObject (Some \<lparr>year = 2025, month = 7, day_of_month = 2,
                                        hours = 18, minutes = 0, seconds = 0\<rparr>),
          s_campaignId = ''c1'', session_end = Some ''22:00'', s_location = Some ''Inn''\<rparr>"
  by (simp add: scheduledSessions_def fresh_install_state_def slot_session_def
      is_duplicate_def same_minute_def new_Date_def or_empty_def)

text \<open>
  Claim C6, amended. The list starts with one entry per finalised proposal of the
  campaign, all of them, whether or not two of them match. After them come entries of
  \<^verbatim>\<open>state.sessions\<close> only, and such an entry is never a duplicate (start time equal
  to the minute, and equal location) of an entry before it in the list: a pre-scheduled
  session that matches a finalised proposal or an earlier listed session is left out.
  Every pre-scheduled session of the campaign is either listed or the duplicate of a
  listed entry.
\<close>

theorem scheduledSessions_skips_duplicate_sessions:
  assumes "proposals st = Some ps" and "sessions st = Some ss"
    and "finalised_sessions pd cid (filter (\<lambda>p. p_campaignId p = cid \<and> finalized p) ps) = Inr fs"
  shows "\<exists>out. scheduledSessions pd st cid = Inr out
     \<and> take (length fs) out = fs
     \<and> map session_id fs = map proposal_id (filter (\<lambda>p. p_campaignId p = cid \<and> finalized p) ps)
     \<and> set (drop (length fs) out) \<subseteq> set (filter (\<lambda>s. s_campaignId s = cid) ss)
     \<and> (\<forall>i j. i < j \<and> j < length out \<and> length fs \<le> j
            \<longrightarrow> \<not> is_duplicate pd (out ! i) (out ! j))
     \<and> (\<forall>s \<in> set (filter (\<lambda>s. s_campaignId s = cid) ss).
            s \<in> set out \<or> list_ex (\<lambda>e. is_duplicate pd e s) out)"
proof -
  let ?legacy = "filter (\<lambda>s. s_campaignId s = cid) ss"
  let ?out = "add_legacy pd fs ?legacy"
  have 0: "scheduledSessions pd st cid = Inr ?out"
    using assms by (rule scheduledSessions_value)
  have 1: "take (length fs) ?out = fs"
    by (rule add_legacy_take)
  have 2: "map session_id fs
             = map proposal_id (filter (\<lambda>p. p_campaignId p = cid \<and> finalized p) ps)"
    using assms(3) by (rule finalised_sessions_length)
  have 3: "set (drop (length fs) ?out) \<subseteq> set ?legacy"
    using add_legacy_extends [of pd fs ?legacy] by auto
  have "\<forall>i j. i < j \<and> j < length fs \<and> length fs \<le> j \<longrightarrow> \<not> is_duplicate pd (fs ! i) (fs ! j)"
    by auto
  then have 4: "\<forall>i j. i < j \<and> j < length ?out \<and> length fs \<le> j
                  \<longrightarrow> \<not> is_duplicate pd (?out ! i) (?out ! j)"
    by (rule add_legacy_no_later_duplicate)
  have 5: "\<forall>s \<in> set ?legacy. s \<in> set ?out \<or> list_ex (\<lambda>e. is_duplicate pd e s) ?out"
    using add_legacy_covers [of _ ?legacy pd fs] by blast
  from 0 1 2 3 4 5 show ?thesis by blast
qed

theorem scheduledSessions_skips_duplicate_sessions_witness:
  "scheduledSessions
      (\<lambda>s. if s = ''2025-08-02T18:00''
            then Some \<lparr>year = 2025, month = 7, day_of_month = 2, hours = 18, minutes = 0,
                       seconds = 0\<rparr>
            else None)
      (fresh_install_state
         \<lparr>sessions := Some
            [\<lparr>session_id = ''s1'',
              datetime = DateObject (Some \<lparr>year = 2025, month = 7, day_of_month = 2,
                                            hours = 18, minutes = 0, seconds = 30\<rparr>),
              s_campaignId = ''c1'', session_end = None, s_location = Some ''Inn''\<rparr>,
             \<lparr>session_id = ''s2'',
              datetime = DateObject (Some \<lparr>year = 2025, month = 7, day_of_month = 9,
                                            hours = 18, minutes = 0, seconds = 0\<rparr>),
              s_campaignId = ''c1'', session_end = None, s_location = Some ''Inn''\<rparr>],
          proposals := Some
            [\<lparr>proposal_id = ''p1'', p_campaignId = ''c1'', finalized = True,
              finalChoiceIndex = Some 0,
              options = [\<lparr>date = ''2025-08-02'', start = ''18:00'', slot_end = ''22:00'',
                          location = Some ''Inn''\<rparr>],
              votes = [Some empty_buckets]\<rparr>]\<rparr>)
      ''c1''
     = Inr [\<lparr>session_id = ''p1'',
             datetime = DateObject (Some \<lparr>year = 2025, month = 7, day_of_month = 2,
                                           hours = 18, minutes = 0, seconds = 0\<rparr>),
             s_campaignId = ''c1'', session_end = Some ''22:00'', s_location = Some ''Inn''\<rparr>,
            \<lparr>session_id = ''s2'',
             datetime = DateObject (Some \<lparr>year = 2025, month = 7, day_of_month = 9,
                                           hours = 18, minutes = 0, seconds = 0\<rparr>),
             s_campaignId = ''c1'', session_end = None, s_location = Some ''Inn''\<rparr>]
   \<and> \<not> is_duplicate
        (\<lambda>s. if s = ''2025-08-02T18:00''
              then Some \<lparr>year = 2025, month = 7, day_of_month = 2, hours = 18, minutes = 0,
                         seconds = 0\<rparr>
              else None)
        \<lparr>session_id = ''p1'',
          datetime = DateObject (Some \<lparr>year = 2025, month = 7, day_of_month = 2,
                                        hours = 18, minutes = 0, seconds = 0\<rparr>),
          s_campaignId = ''c1'', session_end = Some ''22:00'', s_location = Some ''Inn''\<rparr>
        \<lparr>session_id = ''s2'',
          datetime = DateObject (Some \<lparr>year = 2025, month = 7, day_of_month = 9,
                                        hours = 18, minutes = 0, seconds = 0\<rparr>),
          s_campaignId = ''c1'', session_end = None, s_location = Some ''Inn''\<rparr>"
proof -
  let ?pd = "\<lambda>s. if s = ''2025-08-02T18:00''
            then Some \<lparr>year = 2025, month = 7, day_of_month = 2, hours = 18, minutes = 0,
                       seconds = 0\<rparr>
            else None"
  let ?p = "\<lparr>proposal_id = ''p1'', p_campaignId = ''c1'', finalized = True,
              finalChoiceIndex = Some 0,
              options = [\<lparr>date = ''2025-08-02'', start = ''18:00'', slot_end = ''22:00'',
                          location = Some ''Inn''\<rparr>],
              votes = [Some empty_buckets]\<rparr>"
  let ?s1 = "\<lparr>session_id = ''s1'',
              datetime = DateObject (Some \<lparr>year = 2025, month = 7, day_of_month = 2,
                                            hours = 18, minutes = 0, seconds = 30\<rparr>),
              s_campaignId = ''c1'', session_end = None, s_location = Some ''Inn''\<rparr>"
  let ?s2 = "\<lparr>session_id = ''s2'',
              datetime = DateObject (Some \<lparr>year = 2025, month = 7, day_of_month = 9,
                                            hours = 18, minutes = 0, seconds = 0\<rparr>),
              s_campaignId = ''c1'', session_end = None, s_location = Some ''Inn''\<rparr>"
  let ?e1 = "\<lparr>session_id = ''p1'',
             datetime = DateObject (Some \<lparr>year = 2025, month = 7, day_of_month = 2,
                                           hours = 18, minutes = 0, seconds = 0\<rparr>),
             s_campaignId = ''c1'', session_end = Some ''22:00'', s_location = Some ''Inn''\<rparr>"
  let ?st = "fresh_install_state\<lparr>sessions := Some [?s1, ?s2], proposals := Some [?p]\<rparr>"
  have h1: "proposals ?st = Some [?p]" by simp
  have h2: "sessions ?st = Some [?s1, ?s2]" by simp
  have h3: "finalised_sessions ?pd ''c1''
              (filter (\<lambda>p. p_campaignId p = ''c1'' \<and> finalized p) [?p]) = Inr [?e1]"
    by (simp add: slot_session_def)
  have v: "scheduledSessions ?pd ?st ''c1'' = Inr [?e1, ?s2]"
    by (simp add: scheduledSessions_def slot_session_def is_duplicate_def same_minute_def
        new_Date_def or_empty_def)
  from scheduledSessions_skips_duplicate_sessions [OF h1 h2 h3] obtain out
    where o: "scheduledSessions ?pd ?st ''c1'' = Inr out"
      and n: "\<forall>i j. i < j \<and> j < length out \<and> length [?e1] \<le> j
                \<longrightarrow> \<not> is_duplicate ?pd (out ! i) (out ! j)"
    by blast
  from o v have out: "out = [?e1, ?s2]" by simp
  from n [rule_format, of 0 1] have "\<not> is_duplicate ?pd ?e1 ?s2"
    unfolding out by simp
  with v show ?thesis by simp
qed

section \<open>Properties of the ability score increase\<close>

lemma increase_other_fields: "(increase a n ch)\<lparr>abilityScores := abilityScores ch\<rparr> = ch"
  by (simp add: increase_def)

lemma abilityScores_increase:
  "abilityScores (increase a n ch) = (abilityScores ch)(a := abilityScores ch a + n)"
  by (simp add: increase_def)

lemma promptAbilityScoreIncrease_cases:
  "promptAbilityScoreIncrease input ch =
     (case input of
        None \<Rightarrow> ch
      | Some s \<Rightarrow>
          (case ability_codes s of
             [] \<Rightarrow> ch
           | [a] \<Rightarrow> increase a 2 ch
           | a # b # rest \<Rightarrow> increase b 1 (increase a 1 ch)))"
proof -
  have "ability_codes [] = []"
    by (simp add: ability_codes_def split_commas_spaces_def trim_def toLowerCase_def
        ability_of_def List.map_filter_simps)
  then show ?thesis
    by (simp add: promptAbilityScoreIncrease_def split: option.splits)
qed

lemma increase_twice_same:
  "abilityScores (increase a 1 (increase a 1 ch)) = (abilityScores ch)(a := abilityScores ch a + 2)"
  by (simp add: increase_def add.commute)

lemma increase_two:
  "abilityScores (increase b 1 (increase a 1 ch))
     = (abilityScores ch)(a := abilityScores ch a + 1, b := abilityScores ch b + 1)"
  if "a \<noteq> b"
  using that by (simp add: increase_def)

text \<open>
  Claim C7. Whatever the input, the ability scores after the step are the scores before
  it with one ability raised by 2, or with two different abilities raised by 1 each, or
  unchanged, and nothing else of the character changes. Which one it is follows the
  valid codes of the input: a cancelled dialog, the empty string and an input with no
  valid code change nothing; one valid code raises that ability by 2; two or more raise
  the first two by 1 each (the same ability named twice is thereby raised by 2).
\<close>

theorem promptAbilityScoreIncrease_effect:
  "((\<exists>a. abilityScores (promptAbilityScoreIncrease input ch)
            = (abilityScores ch)(a := abilityScores ch a + 2))
    \<or> (\<exists>a b. a \<noteq> b \<and> abilityScores (promptAbilityScoreIncrease input ch)
            = (abilityScores ch)(a := abilityScores ch a + 1, b := abilityScores ch b + 1))
    \<or> abilityScores (promptAbilityScoreIncrease input ch) = abilityScores ch)
   \<and> (promptAbilityScoreIncrease input ch)\<lparr>abilityScores := abilityScores ch\<rparr> = ch
   \<and> promptAbilityScoreIncrease None ch = ch
   \<and> promptAbilityScoreIncrease (Some []) ch = ch
   \<and> (ability_codes s = [] \<longrightarrow> promptAbilityScoreIncrease (Some s) ch = ch)
   \<and> (ability_codes s = [a] \<longrightarrow>
        abilityScores (promptAbilityScoreIncrease (Some s) ch)
          = (abilityScores ch)(a := abilityScores ch a + 2))
   \<and> (ability_codes s = a # b # rest \<and> a \<noteq> b \<longrightarrow>
        abilityScores (promptAbilityScoreIncrease (Some s) ch)
          = (abilityScores ch)(a := abilityScores ch a + 1, b := abilityScores ch b + 1))
   \<and> (ability_codes s = a # a # rest \<longrightarrow>
        abilityScores (promptAbilityScoreIncrease (Some s) ch)
          = (abilityScores ch)(a := abilityScores ch a + 2))"
proof -
  let ?r = "promptAbilityScoreIncrease input ch"
  have tri: "(\<exists>a. abilityScores ?r = (abilityScores ch)(a := abilityScores ch a + 2))
    \<or> (\<exists>a b. a \<noteq> b \<and> abilityScores ?r
            = (abilityScores ch)(a := abilityScores ch a + 1, b := abilityScores ch b + 1))
    \<or> abilityScores ?r = abilityScores ch"
  proof (cases input)
    case None
    then show ?thesis by (simp add: promptAbilityScoreIncrease_cases)
  next
    case (Some s')
    show ?thesis
    proof (cases "ability_codes s'")
      case Nil
      with Some show ?thesis by (simp add: promptAbilityScoreIncrease_cases)
    next
      case (Cons x xs)
      show ?thesis
      proof (cases xs)
        case Nil
        with Some Cons have "abilityScores ?r = (abilityScores ch)(x := abilityScores ch x + 2)"
          by (simp add: promptAbilityScoreIncrease_cases abilityScores_increase)
        then show ?thesis by blast
      next
        case (Cons y ys)
        with Some \<open>ability_codes s' = x # xs\<close>
        have r: "?r = increase y 1 (increase x 1 ch)"
          by (simp add: promptAbilityScoreIncrease_cases)
        show ?thesis
        proof (cases "x = y")
          case True
          with r have "abilityScores ?r = (abilityScores ch)(x := abilityScores ch x + 2)"
            by (simp add: increase_twice_same)
          then show ?thesis by blast
        next
          case False
          with r have "abilityScores ?r
              = (abilityScores ch)(x := abilityScores ch x + 1, y := abilityScores ch y + 1)"
            by (simp add: increase_two)
          with False show ?thesis by blast
        qed
      qed
    qed
  qed
  have rest: "?r\<lparr>abilityScores := abilityScores ch\<rparr> = ch"
    by (simp add: promptAbilityScoreIncrease_cases increase_def split: option.splits list.splits)
  have n: "promptAbilityScoreIncrease None ch = ch"
    and e: "promptAbilityScoreIncrease (Some []) ch = ch"
    by (simp_all add: promptAbilityScoreIncrease_def)
  have z: "promptAbilityScoreIncrease (Some s) ch = ch" if "ability_codes s = []"
    using that by (simp add: promptAbilityScoreIncrease_cases)
  have one: "abilityScores (promptAbilityScoreIncrease (Some s) ch)
          = (abilityScores ch)(a := abilityScores ch a + 2)" if "ability_codes s = [a]"
    using that by (simp add: promptAbilityScoreIncrease_cases abilityScores_increase)
  have two: "abilityScores (promptAbilityScoreIncrease (Some s) ch)
          = (abilityScores ch)(a := abilityScores ch a + 1, b := abilityScores ch b + 1)"
    if "ability_codes s = a # b # rest \<and> a \<noteq> b"
    using that by (simp add: promptAbilityScoreIncrease_cases increase_two)
  have same: "abilityScores (promptAbilityScoreIncrease (Some s) ch)
          = (abilityScores ch)(a := abilityScores ch a + 2)" if "ability_codes s = a # a # rest"
    using that by (simp add: promptAbilityScoreIncrease_cases increase_twice_same)
  from tri rest n e z one two same show ?thesis by blast
qed

theorem promptAbilityScoreIncrease_effect_witness:
  "ability_codes ''STR, Dex foo'' = [Ab_str, Ab_dex]
   \<and> abilityScores (promptAbilityScoreIncrease (Some ''STR, Dex foo'')
        \<lparr>character_id = ''ch1'', character_name = ''Mira'', classIndex = Some ''fighter'',
         level = 1, xp = 0, hp = Some 12, hitDie = Some 10, abilityScores = (\<lambda>a. 10),
         features = Some []\<rparr>)
       = (\<lambda>a. 10)(Ab_str := 11, Ab_dex := 11)
   \<and> ability_codes ''con'' = [Ab_con]
   \<and> abilityScores (promptAbilityScoreIncrease (Some ''con'')
        \<lparr>character_id = ''ch1'', character_name = ''Mira'', classIndex = Some ''fighter'',
         level = 1, xp = 0, hp = Some 12, hitDie = Some 10, abilityScores = (\<lambda>a. 10),
         features = Some []\<rparr>)
       = (\<lambda>a. 10)(Ab_con := 12)
   \<and> ability_codes ''strength'' = []
   \<and> promptAbilityScoreIncrease (Some ''strength'')
        \<lparr>character_id = ''ch1'', character_name = ''Mira'', classIndex = Some ''fighter'',
         level = 1, xp = 0, hp = Some 12, hitDie = Some 10, abilityScores = (\<lambda>a. 10),
         features = Some []\<rparr>
       = \<lparr>character_id = ''ch1'', character_name = ''Mira'', classIndex = Some ''fighter'',
         level = 1, xp = 0, hp = Some 12, hitDie = Some 10, abilityScores = (\<lambda>a. 10),
         features = Some []\<rparr>"
proof -
  let ?ch = "\<lparr>character_id = ''ch1'', character_name = ''Mira'', classIndex = Some ''fighter'',
         level = 1, xp = 0, hp = Some 12, hitDie = Some 10, abilityScores = (\<lambda>a. 10::int),
         features = Some []\<rparr>"
  have c2: "ability_codes ''STR, Dex foo'' = [Ab_str, Ab_dex]"
    and c1: "ability_codes ''con'' = [Ab_con]"
    and c0: "ability_codes ''strength'' = []"
    by (simp_all add: ability_codes_def split_commas_spaces_def is_space_def trim_def
        toLowerCase_def lower_char_def ability_of_def List.map_filter_simps)
  have h2: "ability_codes ''STR, Dex foo'' = Ab_str # Ab_dex # [] \<and> Ab_str \<noteq> Ab_dex"
    using c2 by simp
  note two = promptAbilityScoreIncrease_effect
    [where s = "''STR, Dex foo''" and a = Ab_str and b = Ab_dex and rest = "[]" and ch = ?ch,
      THEN conjunct2, THEN conjunct2, THEN conjunct2, THEN conjunct2, THEN conjunct2,
      THEN conjunct2, THEN conjunct1, rule_format, OF h2]
  note one = promptAbilityScoreIncrease_effect
    [where s = "''con''" and a = Ab_con and ch = ?ch,
      THEN conjunct2, THEN conjunct2, THEN conjunct2, THEN conjunct2, THEN conjunct2,
      THEN conjunct1, rule_format, OF c1]
  note none = promptAbilityScoreIncrease_effect
    [where s = "''strength''" and ch = ?ch,
      THEN conjunct2, THEN conjunct2, THEN conjunct2, THEN conjunct2,
      THEN conjunct1, rule_format, OF c0]
  from two have "abilityScores (promptAbilityScoreIncrease (Some ''STR, Dex foo'') ?ch)
       = (\<lambda>a. 10)(Ab_str := 11, Ab_dex := 11)"
    by simp
  moreover from one have "abilityScores (promptAbilityScoreIncrease (Some ''con'') ?ch)
       = (\<lambda>a. 10)(Ab_con := 12)"
    by simp
  ultimately show ?thesis
    using c2 c1 c0 none by simp
qed

section \<open>Properties of the XP award\<close>

lemma promptAbilityScoreIncrease_fields:
  "hp (promptAbilityScoreIncrease input ch) = hp ch"
  "hitDie (promptAbilityScoreIncrease input ch) = hitDie ch"
  "classIndex (promptAbilityScoreIncrease input ch) = classIndex ch"
  "features (promptAbilityScoreIncrease input ch) = features ch"
  "level (promptAbilityScoreIncrease input ch) = level ch"
  "xp (promptAbilityScoreIncrease input ch) = xp ch"
  by (simp_all add: promptAbilityScoreIncrease_cases increase_def
      split: option.splits list.splits)

lemma set_array_from_set: "set (array_from_set xs) = set xs"
  by (simp add: array_from_set_def)

lemma distinct_array_from_set: "distinct (array_from_set xs)"
  by (simp add: array_from_set_def)

lemma level_step_hp:
  "hp (level_step fetch inputs lvl c)
     = Some (hp_or_0 c + (hit_die_or_8 c + (abilityScores c Ab_con - 10) div 2))"
  by (simp add: level_step_def Let_def con_mod_def promptAbilityScoreIncrease_fields
      split: option.splits)

lemma level_step_fields:
  "hitDie (level_step fetch inputs lvl c) = hitDie c"
  "classIndex (level_step fetch inputs lvl c) = classIndex c"
  "level (level_step fetch inputs lvl c) = level c"
  "xp (level_step fetch inputs lvl c) = xp c"
  by (simp_all add: level_step_def Let_def promptAbilityScoreIncrease_fields
      split: option.splits)

lemma level_step_features:
  assumes "classIndex c = Some cls" and "cls \<noteq> []"
  shows "features (level_step fetch inputs lvl c)
           = Some (array_from_set (features_or_empty c @ fetch cls lvl))"
  using assms
  by (simp add: level_step_def Let_def promptAbilityScoreIncrease_fields features_or_empty_def)

lemma level_step_features_set:
  assumes "classIndex c = Some cls" and "cls \<noteq> []"
  shows "set (features_or_empty (level_step fetch inputs lvl c))
           = set (features_or_empty c) \<union> set (fetch cls lvl)"
  using level_step_features [OF assms, of fetch inputs lvl]
  by (simp add: features_or_empty_def [of "level_step fetch inputs lvl c"] set_array_from_set)

lemma level_step_no_class:
  assumes "classIndex c = None \<or> classIndex c = Some []"
  shows "features (level_step fetch inputs lvl c) = features c"
    and "abilityScores (level_step fetch inputs lvl c) = abilityScores c"
  using assms by (auto simp: level_step_def Let_def)

lemma level_step_scores:
  assumes "\<forall>cls. classIndex c = Some cls \<longrightarrow> \<not> list_ex is_ability_score_feature (fetch cls lvl)"
  shows "abilityScores (level_step fetch inputs lvl c) = abilityScores c"
  using assms by (simp add: level_step_def Let_def split: option.splits)

lemma level_up_loop_foldl:
  "level_up_loop fetch inputs newLevel lvl ch
     = foldl (\<lambda>c l. level_step fetch inputs l c) ch [lvl..newLevel]"
proof (induction fetch inputs newLevel lvl ch rule: level_up_loop.induct)
  case (1 fetch inputs newLevel lvl ch)
  show ?case
  proof (cases "lvl \<le> newLevel")
    case True
    then have "[lvl..newLevel] = lvl # [lvl + 1..newLevel]"
      by (rule upto_rec1)
    with True "1.IH" show ?thesis
      by (subst level_up_loop.simps) simp
  next
    case False
    then show ?thesis
      by (subst level_up_loop.simps) simp
  qed
qed

lemma foldl_steps_hp:
  assumes "\<forall>lvl cls. classIndex c0 = Some cls \<longrightarrow> \<not> list_ex is_ability_score_feature (fetch cls lvl)"
  shows "hp_or_0 (foldl (\<lambda>c l. level_step fetch inputs l c) c0 ls)
             = hp_or_0 c0 + int (length ls) * (hit_die_or_8 c0 + con_mod c0)
         \<and> hitDie (foldl (\<lambda>c l. level_step fetch inputs l c) c0 ls) = hitDie c0
         \<and> abilityScores (foldl (\<lambda>c l. level_step fetch inputs l c) c0 ls) = abilityScores c0
         \<and> classIndex (foldl (\<lambda>c l. level_step fetch inputs l c) c0 ls) = classIndex c0"
proof (induction ls rule: rev_induct)
  case Nil
  show ?case by simp
next
  case (snoc l ls)
  let ?r = "foldl (\<lambda>c l. level_step fetch inputs l c) c0 ls"
  from snoc have r: "hp_or_0 ?r = hp_or_0 c0 + int (length ls) * (hit_die_or_8 c0 + con_mod c0)"
    "hitDie ?r = hitDie c0" "abilityScores ?r = abilityScores c0" "classIndex ?r = classIndex c0"
    by simp_all
  have s: "abilityScores (level_step fetch inputs l ?r) = abilityScores ?r"
    using assms r(4) by (intro level_step_scores) simp
  have g: "hit_die_or_8 ?r = hit_die_or_8 c0" "con_mod ?r = con_mod c0"
    using r by (simp_all add: hit_die_or_8_def con_mod_def)
  have "hp_or_0 (level_step fetch inputs l ?r) = hp_or_0 ?r + (hit_die_or_8 ?r + con_mod ?r)"
    by (simp add: hp_or_0_def [of "level_step fetch inputs l ?r"] level_step_hp con_mod_def)
  with r g have "hp_or_0 (level_step fetch inputs l ?r)
      = hp_or_0 c0 + int (length (ls @ [l])) * (hit_die_or_8 c0 + con_mod c0)"
    by (simp add: algebra_simps)
  with s r show ?case
    by (simp add: level_step_fields)
qed

lemma foldl_steps_features:
  assumes "classIndex c0 = Some cls" and "cls \<noteq> []"
  shows "set (features_or_empty (foldl (\<lambda>c l. level_step fetch inputs l c) c0 ls))
             = set (features_or_empty c0) \<union> (\<Union>l \<in> set ls. set (fetch cls l))
         \<and> classIndex (foldl (\<lambda>c l. level_step fetch inputs l c) c0 ls) = classIndex c0"
proof (induction ls rule: rev_induct)
  case Nil
  show ?case by simp
next
  case (snoc l ls)
  let ?r = "foldl (\<lambda>c l. level_step fetch inputs l c) c0 ls"
  from snoc assms have c: "classIndex ?r = Some cls" by simp
  from level_step_features_set [OF c assms(2), of fetch inputs l] snoc
  have "set (features_or_empty (level_step fetch inputs l ?r))
          = set (features_or_empty c0) \<union> (\<Union>l \<in> set (ls @ [l]). set (fetch cls l))"
    by auto
  with snoc show ?case
    by (simp add: level_step_fields)
qed

lemma remdups_append_filter:
  "remdups (as @ bs) = filter (\<lambda>a. a \<notin> set bs) (remdups as) @ remdups bs"
  by (induction as) auto

lemma array_from_set_append:
  "distinct xs \<Longrightarrow> array_from_set (xs @ ys) = xs @ array_from_set [y \<leftarrow> ys. y \<notin> set xs]"
  by (simp add: array_from_set_def remdups_append_filter remdups_filter rev_filter
      distinct_remdups_id)

lemma level_step_features_distinct:
  assumes "classIndex c = Some cls" and "cls \<noteq> []"
  shows "distinct (features_or_empty (level_step fetch inputs lvl c))"
  using level_step_features [OF assms, of fetch inputs lvl]
  by (simp add: features_or_empty_def [of "level_step fetch inputs lvl c"]
      distinct_array_from_set)

lemma level_step_features_keep:
  assumes "classIndex c = Some cls" and "cls \<noteq> []" and "distinct (features_or_empty c)"
  shows "features_or_empty (level_step fetch inputs lvl c)
           = features_or_empty c
               @ array_from_set [f \<leftarrow> fetch cls lvl. f \<notin> set (features_or_empty c)]"
  using level_step_features [OF assms(1,2), of fetch inputs lvl] assms(3)
  by (simp add: features_or_empty_def [of "level_step fetch inputs lvl c"]
      array_from_set_append)

lemma foldl_steps_last:
  assumes "ls \<noteq> []"
  shows "hp (foldl (\<lambda>c l. level_step fetch inputs l c) c0 ls)
           = Some (hp_or_0 (foldl (\<lambda>c l. level_step fetch inputs l c) c0 ls))"
    and "classIndex c0 = Some cls \<Longrightarrow> cls \<noteq> [] \<Longrightarrow>
           distinct (features_or_empty (foldl (\<lambda>c l. level_step fetch inputs l c) c0 ls))"
proof -
  from assms obtain ls' l where ls: "ls = ls' @ [l]"
    by (cases ls rule: rev_cases) auto
  let ?r = "foldl (\<lambda>c l. level_step fetch inputs l c) c0 ls'"
  show "hp (foldl (\<lambda>c l. level_step fetch inputs l c) c0 ls)
           = Some (hp_or_0 (foldl (\<lambda>c l. level_step fetch inputs l c) c0 ls))"
    by (simp add: ls level_step_hp hp_or_0_def [of "level_step fetch inputs l ?r"])
  assume c: "classIndex c0 = Some cls" "cls \<noteq> []"
  from foldl_steps_features [OF c, of fetch inputs ls'] c
  have "classIndex ?r = Some cls" by simp
  from level_step_features_distinct [OF this c(2), of fetch inputs l]
  show "distinct (features_or_empty (foldl (\<lambda>c l. level_step fetch inputs l c) c0 ls))"
    by (simp add: ls)
qed

lemma award_xp_level_up:
  assumes "0 < n" and "newLevel = int (getLevelFromXp (Some (xp ch + n)))"
    and "level ch < newLevel"
  shows "award_xp fetch inputs (Some n) ch
           = (foldl (\<lambda>c lvl. level_step fetch inputs lvl c) (ch\<lparr>xp := xp ch + n\<rparr>)
                [level ch + 1..newLevel])\<lparr>level := newLevel\<rparr>"
  using assms by (simp add: award_xp_def Let_def level_up_loop_foldl)

text \<open>
  Claim C3. A positive award that raises the level from \<open>level ch\<close> to \<open>newLevel\<close>
  runs the per-level step once for each level \<open>level ch + 1, ..., newLevel\<close>, in this
  order, each step working on the character the step before left. A step adds to the
  hit points (null counting as 0) the hit die, or 8 when the hit die is null or 0, plus
  \<open>(con - 10) div 2\<close>, the quotient rounded down, with the constitution score the
  character has at that step. For a character with a class a step makes the feature
  list the union of the list before and the features fetched for that level: a list
  without repetition, with the same elements, in which a list that had no repetition
  keeps its place at the front. So the features of every level passed are in the final
  list, once each, and when no fetched feature triggers an ability score increase the
  hit points grow by the number of levels gained times the gain of one level.
\<close>

theorem award_xp_applies_each_level:
  assumes "0 < n" and "newLevel = int (getLevelFromXp (Some (xp ch + n)))"
    and "level ch < newLevel"
  shows "award_xp fetch inputs (Some n) ch
           = (foldl (\<lambda>c lvl. level_step fetch inputs lvl c) (ch\<lparr>xp := xp ch + n\<rparr>)
                [level ch + 1..newLevel])\<lparr>level := newLevel\<rparr>
     \<and> length [level ch + 1..newLevel] = nat (newLevel - level ch)
     \<and> distinct [level ch + 1..newLevel]
     \<and> set [level ch + 1..newLevel] = {l. level ch < l \<and> l \<le> newLevel}
     \<and> (\<forall>c lvl. hp (level_step fetch inputs lvl c)
            = Some ((case hp c of None \<Rightarrow> 0 | Some h \<Rightarrow> h)
                    + ((case hitDie c of None \<Rightarrow> 8 | Some d \<Rightarrow> if d = 0 then 8 else d)
                       + (abilityScores c Ab_con - 10) div 2)))
     \<and> (\<forall>c lvl cls. classIndex c = Some cls \<and> cls \<noteq> [] \<longrightarrow>
            features (level_step fetch inputs lvl c)
              = Some (array_from_set (features_or_empty c @ fetch cls lvl))
            \<and> set (features_or_empty (level_step fetch inputs lvl c))
              = set (features_or_empty c) \<union> set (fetch cls lvl)
            \<and> distinct (features_or_empty (level_step fetch inputs lvl c))
            \<and> (distinct (features_or_empty c) \<longrightarrow>
                 features_or_empty (level_step fetch inputs lvl c)
                   = features_or_empty c
                       @ array_from_set [f \<leftarrow> fetch cls lvl. f \<notin> set (features_or_empty c)]))
     \<and> (\<forall>xs :: string list. distinct (array_from_set xs) \<and> set (array_from_set xs) = set xs)
     \<and> (\<forall>c. features_or_empty c = (case features c of None \<Rightarrow> [] | Some fs \<Rightarrow> fs))
     \<and> (\<forall>cls. classIndex ch = Some cls \<and> cls \<noteq> [] \<longrightarrow>
            set (features_or_empty (award_xp fetch inputs (Some n) ch))
              = set (features_or_empty ch) \<union> (\<Union>l \<in> {level ch + 1..newLevel}. set (fetch cls l))
            \<and> distinct (features_or_empty (award_xp fetch inputs (Some n) ch)))
     \<and> ((\<forall>lvl cls. classIndex ch = Some cls \<longrightarrow>
              \<not> list_ex is_ability_score_feature (fetch cls lvl)) \<longrightarrow>
          hp (award_xp fetch inputs (Some n) ch)
            = Some ((case hp ch of None \<Rightarrow> 0 | Some h \<Rightarrow> h)
                    + (newLevel - level ch)
                      * ((case hitDie ch of None \<Rightarrow> 8 | Some d \<Rightarrow> if d = 0 then 8 else d)
                         + (abilityScores ch Ab_con - 10) div 2)))"
proof -
  let ?ch1 = "ch\<lparr>xp := xp ch + n\<rparr>"
  let ?ls = "[level ch + 1..newLevel]"
  let ?r = "foldl (\<lambda>c lvl. level_step fetch inputs lvl c) ?ch1 ?ls"
  have ne: "?ls \<noteq> []"
    using assms(3) by simp
  have 1: "award_xp fetch inputs (Some n) ch = ?r\<lparr>level := newLevel\<rparr>"
    using assms by (rule award_xp_level_up)
  have 2: "length ?ls = nat (newLevel - level ch)"
    by simp
  have 3: "distinct ?ls"
    by simp
  have 4: "set ?ls = {l. level ch < l \<and> l \<le> newLevel}"
    by auto
  have 5: "\<forall>c lvl. hp (level_step fetch inputs lvl c)
            = Some ((case hp c of None \<Rightarrow> 0 | Some h \<Rightarrow> h)
                    + ((case hitDie c of None \<Rightarrow> 8 | Some d \<Rightarrow> if d = 0 then 8 else d)
                       + (abilityScores c Ab_con - 10) div 2))"
    by (simp add: level_step_hp hp_or_0_def hit_die_or_8_def)
  have 6: "\<forall>c lvl cls. classIndex c = Some cls \<and> cls \<noteq> [] \<longrightarrow>
            features (level_step fetch inputs lvl c)
              = Some (array_from_set (features_or_empty c @ fetch cls lvl))
            \<and> set (features_or_empty (level_step fetch inputs lvl c))
              = set (features_or_empty c) \<union> set (fetch cls lvl)
            \<and> distinct (features_or_empty (level_step fetch inputs lvl c))
            \<and> (distinct (features_or_empty c) \<longrightarrow>
                 features_or_empty (level_step fetch inputs lvl c)
                   = features_or_empty c
                       @ array_from_set [f \<leftarrow> fetch cls lvl. f \<notin> set (features_or_empty c)])"
  proof (intro allI impI)
    fix c :: character and lvl :: int and cls :: string
    assume "classIndex c = Some cls \<and> cls \<noteq> []"
    then have k: "classIndex c = Some cls" "cls \<noteq> []"
      by simp_all
    show "features (level_step fetch inputs lvl c)
              = Some (array_from_set (features_or_empty c @ fetch cls lvl))
            \<and> set (features_or_empty (level_step fetch inputs lvl c))
              = set (features_or_empty c) \<union> set (fetch cls lvl)
            \<and> distinct (features_or_empty (level_step fetch inputs lvl c))
            \<and> (distinct (features_or_empty c) \<longrightarrow>
                 features_or_empty (level_step fetch inputs lvl c)
                   = features_or_empty c
                       @ array_from_set [f \<leftarrow> fetch cls lvl. f \<notin> set (features_or_empty c)])"
      by (intro conjI impI level_step_features [OF k] level_step_features_set [OF k]
          level_step_features_distinct [OF k] level_step_features_keep [OF k])
  qed
  have pin_set: "\<forall>xs :: string list. distinct (array_from_set xs) \<and> set (array_from_set xs) = set xs"
    by (simp add: distinct_array_from_set set_array_from_set)
  have pin_features: "\<forall>c. features_or_empty c = (case features c of None \<Rightarrow> [] | Some fs \<Rightarrow> fs)"
    by (simp add: features_or_empty_def)
  have 7: "set (features_or_empty (award_xp fetch inputs (Some n) ch))
              = set (features_or_empty ch) \<union> (\<Union>l \<in> {level ch + 1..newLevel}. set (fetch cls l))
            \<and> distinct (features_or_empty (award_xp fetch inputs (Some n) ch))"
    if c: "classIndex ch = Some cls \<and> cls \<noteq> []" for cls
  proof -
    from c have k: "classIndex ?ch1 = Some cls" "cls \<noteq> []" by simp_all
    from foldl_steps_features [OF k, of fetch inputs ?ls]
    have "set (features_or_empty ?r)
            = set (features_or_empty ?ch1) \<union> (\<Union>l \<in> set ?ls. set (fetch cls l))"
      by blast
    moreover have "distinct (features_or_empty ?r)"
      using ne k by (rule foldl_steps_last(2))
    ultimately show ?thesis
      by (simp add: 1 features_or_empty_def)
  qed
  have 8: "hp (award_xp fetch inputs (Some n) ch)
            = Some ((case hp ch of None \<Rightarrow> 0 | Some h \<Rightarrow> h)
                    + (newLevel - level ch)
                      * ((case hitDie ch of None \<Rightarrow> 8 | Some d \<Rightarrow> if d = 0 then 8 else d)
                         + (abilityScores ch Ab_con - 10) div 2))"
    if a: "\<forall>lvl cls. classIndex ch = Some cls \<longrightarrow>
              \<not> list_ex is_ability_score_feature (fetch cls lvl)"
  proof -
    from a have "\<forall>lvl cls. classIndex ?ch1 = Some cls \<longrightarrow>
              \<not> list_ex is_ability_score_feature (fetch cls lvl)"
      by simp
    from foldl_steps_hp [OF this, of inputs ?ls]
    have "hp_or_0 ?r = hp_or_0 ?ch1 + int (length ?ls) * (hit_die_or_8 ?ch1 + con_mod ?ch1)"
      by blast
    moreover have "int (length ?ls) = newLevel - level ch"
      using assms(3) by simp
    moreover have "hp ?r = Some (hp_or_0 ?r)"
      using ne by (rule foldl_steps_last(1))
    ultimately show ?thesis
      by (simp add: 1 hp_or_0_def [of ch] hp_or_0_def [of ?ch1] hit_die_or_8_def con_mod_def)
  qed
  from 1 2 3 4 5 6 pin_set pin_features 7 8 show ?thesis by blast
qed

theorem award_xp_applies_each_level_witness:
  "getLevelFromXp (Some (900 + 6000)) = 5
   \<and> hp (award_xp
        (\<lambda>cls lvl. if lvl = 4 then [''Ability Score Improvement'', ''Second Wind'']
                    else if lvl = 5 then [''Extra Attack'', ''Extra Attack''] else [])
        (\<lambda>lvl. Some ''con'') (Some 6000)
        \<lparr>character_id = ''ch1'', character_name = ''Mira'', classIndex = Some ''fighter'',
         level = 3, xp = 900, hp = Some 28, hitDie = None, abilityScores = (\<lambda>a. 9),
         features = Some [''Second Wind'']\<rparr>) = Some 43
   \<and> features (award_xp
        (\<lambda>cls lvl. if lvl = 4 then [''Ability Score Improvement'', ''Second Wind'']
                    else if lvl = 5 then [''Extra Attack'', ''Extra Attack''] else [])
        (\<lambda>lvl. Some ''con'') (Some 6000)
        \<lparr>character_id = ''ch1'', character_name = ''Mira'', classIndex = Some ''fighter'',
         level = 3, xp = 900, hp = Some 28, hitDie = None, abilityScores = (\<lambda>a. 9),
         features = Some [''Second Wind'']\<rparr>)
       = Some [''Second Wind'', ''Ability Score Improvement'', ''Extra Attack'']
   \<and> level (award_xp
        (\<lambda>cls lvl. if lvl = 4 then [''Ability Score Improvement'', ''Second Wind'']
                    else if lvl = 5 then [''Extra Attack'', ''Extra Attack''] else [])
        (\<lambda>lvl. Some ''con'') (Some 6000)
        \<lparr>character_id = ''ch1'', character_name = ''Mira'', classIndex = Some ''fighter'',
         level = 3, xp = 900, hp = Some 28, hitDie = None, abilityScores = (\<lambda>a. 9),
         features = Some [''Second Wind'']\<rparr>) = 5
   \<and> hp (award_xp (\<lambda>cls lvl. []) (\<lambda>lvl. None) (Some 6000)
        \<lparr>character_id = ''ch2'', character_name = ''Orin'', classIndex = Some ''wizard'',
         level = 3, xp = 900, hp = None, hitDie = Some 0, abilityScores = (\<lambda>a. 9),
         features = None\<rparr>) = Some 14"
proof -
  let ?fetch = "\<lambda>(cls::string) (lvl::int).
                    if lvl = 4 then [''Ability Score Improvement'', ''Second Wind'']
                    else if lvl = 5 then [''Extra Attack'', ''Extra Attack''] else []"
  let ?inputs = "\<lambda>lvl::int. Some ''con''"
  let ?ch = "\<lparr>character_id = ''ch1'', character_name = ''Mira'', classIndex = Some ''fighter'',
         level = 3, xp = 900, hp = Some 28, hitDie = None, abilityScores = (\<lambda>a. 9::int),
         features = Some [''Second Wind'']\<rparr>"
  let ?ch2 = "\<lparr>character_id = ''ch2'', character_name = ''Orin'', classIndex = Some ''wizard'',
         level = 3, xp = 900, hp = None, hitDie = Some 0, abilityScores = (\<lambda>a. 9::int),
         features = None\<rparr>"
  have lv: "getLevelFromXp (Some (900 + 6000)) = 5"
    by code_simp
  have h1: "(0::int) < 6000" by simp
  have h2: "5 = int (getLevelFromXp (Some (xp ?ch + 6000)))"
    using lv by simp
  have h3: "level ?ch < 5" by simp
  have h2': "5 = int (getLevelFromXp (Some (xp ?ch2 + 6000)))"
    using lv by simp
  have h3': "level ?ch2 < 5" by simp
  have asi: "is_ability_score_feature ''Ability Score Improvement''"
    and no_asi: "\<not> is_ability_score_feature ''Extra Attack''"
      "\<not> is_ability_score_feature ''Second Wind''"
    by (simp_all add: is_ability_score_feature_def toLowerCase_def lower_char_def)
  have codes: "ability_codes ''con'' = [Ab_con]"
    by (simp add: ability_codes_def split_commas_spaces_def is_space_def trim_def
        toLowerCase_def lower_char_def ability_of_def List.map_filter_simps)
  have ls: "[level ?ch + 1..5] = [4, 5]"
    by (simp add: upto_rec1)
  note t = award_xp_applies_each_level [OF h1 h2 h3, of ?fetch ?inputs, THEN conjunct1]
  have r: "award_xp ?fetch ?inputs (Some 6000) ?ch
      = \<lparr>character_id = ''ch1'', character_name = ''Mira'', classIndex = Some ''fighter'',
         level = 5, xp = 6900, hp = Some 43, hitDie = None,
         abilityScores = (\<lambda>a. 9)(Ab_con := 11),
         features = Some [''Second Wind'', ''Ability Score Improvement'', ''Extra Attack'']\<rparr>"
    unfolding t ls
    by (simp add: level_step_def Let_def con_mod_def hp_or_0_def hit_die_or_8_def
        features_or_empty_def array_from_set_def asi no_asi promptAbilityScoreIncrease_def
        codes increase_def)
  have none: "\<forall>(lvl::int) (cls::string). classIndex ?ch2 = Some cls \<longrightarrow>
              \<not> list_ex is_ability_score_feature []"
    by simp
  note t2 = award_xp_applies_each_level [OF h1 h2' h3', of "\<lambda>cls lvl. []" "\<lambda>lvl. None",
      THEN conjunct2, THEN conjunct2, THEN conjunct2, THEN conjunct2, THEN conjunct2,
      THEN conjunct2, THEN conjunct2, THEN conjunct2, THEN conjunct2, THEN mp, OF none]
  have r2: "hp (award_xp (\<lambda>cls lvl. []) (\<lambda>lvl. None) (Some 6000) ?ch2) = Some 14"
    using t2 by simp
  show ?thesis
    unfolding r using lv r2 by simp
qed

section \<open>Properties of the dice roller\<close>

lemma rollDice_result:
  "rollDice rnd new_id now expr lbl st_opt = Inr (res, st') \<Longrightarrow>
     res = \<lparr>roll_total = running_total (roll_terms rnd (parseDiceExpression expr)),
            roll_details = concat (detailParts (roll_terms rnd (parseDiceExpression expr))),
            roll_crit = current_crit (roll_terms rnd (parseDiceExpression expr))\<rparr>"
  by (auto simp: rollDice_def Let_def split: option.splits if_splits)

lemma rollDice_logs:
  assumes "currentUserId st = Some uid" and "uid \<noteq> []"
    and "users st = Some us" and "rolls st = Some rs"
  shows "rollDice rnd new_id now expr lbl (Some st)
           = Inr (\<lparr>roll_total = running_total (roll_terms rnd (parseDiceExpression expr)),
                   roll_details = concat (detailParts (roll_terms rnd (parseDiceExpression expr))),
                   roll_crit = current_crit (roll_terms rnd (parseDiceExpression expr))\<rparr>,
                  Some (st\<lparr>rolls := Some (drop (length rs + 1 - 500)
                    (rs @ [log_entry new_id now uid us expr lbl
                      \<lparr>roll_total = running_total (roll_terms rnd (parseDiceExpression expr)),
                       roll_details = concat (detailParts (roll_terms rnd (parseDiceExpression expr))),
                       roll_crit = current_crit (roll_terms rnd (parseDiceExpression expr))\<rparr>
                      st]))\<rparr>))"
  using assms by (simp add: rollDice_def Let_def)

lemma log_entry_fields:
  "entry_id (log_entry new_id now uid us expr lbl res st) = new_id"
  "timestamp (log_entry new_id now uid us expr lbl res st) = now"
  "r_userId (log_entry new_id now uid us expr lbl res st) = uid"
  "expression (log_entry new_id now uid us expr lbl res st) = expr"
  "result (log_entry new_id now uid us expr lbl res st) = roll_total res"
  "crit (log_entry new_id now uid us expr lbl res st) = roll_crit res"
  by (simp_all add: log_entry_def)

lemma drop_keeps_newest:
  assumes "length rs \<le> 500"
  shows "drop (length rs + 1 - 500) (rs @ [e]) = (if length rs < 500 then rs @ [e] else tl rs @ [e])"
proof (cases "length rs < 500")
  case True
  then show ?thesis by simp
next
  case False
  with assms have l: "length rs = 500" by simp
  then have "rs \<noteq> []" by auto
  then have "drop 1 (rs @ [e]) = tl rs @ [e]"
    by (cases rs) simp_all
  with l show ?thesis by simp
qed

text \<open>
  Claim C9. With a logged-in user and a log of at most 500 entries, \<open>rollDice\<close>
  leaves a log of at most 500 entries: the old log followed by the new entry, without
  its oldest entry when the old log was full; that is, the last 500 entries of the old
  log with the new one appended. The only other outcome is the TypeError of
  \<^verbatim>\<open>state.users.find\<close> when the state has no \<^verbatim>\<open>users\<close>, thrown before the log
  is touched.
\<close>

theorem rollDice_log_bounded:
  assumes "currentUserId st = Some uid" and "uid \<noteq> []"
    and "rolls st = Some rs" and "length rs \<le> 500"
  shows "(users st = None \<and> rollDice rnd new_id now expr lbl (Some st) = Inl TypeError)
     \<or> (\<exists>res entry rs'.
           rollDice rnd new_id now expr lbl (Some st) = Inr (res, Some (st\<lparr>rolls := Some rs'\<rparr>))
           \<and> length rs' \<le> 500
           \<and> rs' = (if length rs < 500 then rs @ [entry] else tl rs @ [entry])
           \<and> rs' = drop (length (rs @ [entry]) - 500) (rs @ [entry])
           \<and> entry_id entry = new_id \<and> timestamp entry = now \<and> r_userId entry = uid
           \<and> expression entry = expr \<and> result entry = roll_total res
           \<and> crit entry = roll_crit res)"
proof (cases "users st")
  case None
  with assms(1,2) show ?thesis
    by (simp add: rollDice_def Let_def)
next
  case (Some us)
  let ?res = "\<lparr>roll_total = running_total (roll_terms rnd (parseDiceExpression expr)),
                roll_details = concat (detailParts (roll_terms rnd (parseDiceExpression expr))),
                roll_crit = current_crit (roll_terms rnd (parseDiceExpression expr))\<rparr>"
  define res where "res = ?res"
  define entry where "entry = log_entry new_id now uid us expr lbl res st"
  have r: "rollDice rnd new_id now expr lbl (Some st)
             = Inr (res, Some (st\<lparr>rolls := Some (drop (length rs + 1 - 500) (rs @ [entry]))\<rparr>))"
    unfolding entry_def res_def using assms(1,2) Some assms(3) by (rule rollDice_logs)
  have e: "entry_id entry = new_id \<and> timestamp entry = now \<and> r_userId entry = uid
           \<and> expression entry = expr \<and> result entry = roll_total res
           \<and> crit entry = roll_crit res"
    by (simp add: entry_def log_entry_fields)
  let ?rs' = "drop (length rs + 1 - 500) (rs @ [entry])"
  have 1: "length ?rs' \<le> 500"
    using assms(4) by simp
  have 2: "?rs' = (if length rs < 500 then rs @ [entry] else tl rs @ [entry])"
    using assms(4) by (rule drop_keeps_newest)
  have 3: "?rs' = drop (length (rs @ [entry]) - 500) (rs @ [entry])"
    by simp
  from r e 1 2 3 show ?thesis by blast
qed

theorem rollDice_log_bounded_witness:
  "rollDice (\<lambda>k n. 19) ''r2'' 2000 ''1d20+1'' ''Attack''
     (Some (fresh_install_state
        \<lparr>users := Some [\<lparr>user_id = ''u1'', username = ''mira''\<rparr>],
         rolls := Some [\<lparr>entry_id = ''r1'', timestamp = 1000, r_userId = ''u1'',
                         userName = ''mira'', expression = ''d6'', label = ''d6'',
                         result = 4, details = ''4'', crit = None, r_campaignId = None\<rparr>],
         currentUserId := Some ''u1''\<rparr>))
   = Inr (\<lparr>roll_total = 21, roll_details = ''20+1'', roll_crit = Some Success\<rparr>,
          Some (fresh_install_state
        \<lparr>users := Some [\<lparr>user_id = ''u1'', username = ''mira''\<rparr>],
         rolls := Some [\<lparr>entry_id = ''r1'', timestamp = 1000, r_userId = ''u1'',
                         userName = ''mira'', expression = ''d6'', label = ''d6'',
                         result = 4, details = ''4'', crit = None, r_campaignId = None\<rparr>,
                        \<lparr>entry_id = ''r2'', timestamp = 2000, r_userId = ''u1'',
                         userName = ''mira'', expression = ''1d20+1'', label = ''Attack'',
                         result = 21, details = ''20+1'', crit = Some Success,
                         r_campaignId = None\<rparr>],
         currentUserId := Some ''u1''\<rparr>))
   \<and> length (\<lparr>entry_id = ''r0'', timestamp = 500, r_userId = ''u1'',
                userName = ''mira'', expression = ''d4'', label = ''oldest'',
                result = 2, details = ''2'', crit = None, r_campaignId = None\<rparr>
              # replicate 499
                  \<lparr>entry_id = ''r1'', timestamp = 1000, r_userId = ''u1'',
                   userName = ''mira'', expression = ''d6'', label = ''d6'',
                   result = 4, details = ''4'', crit = None, r_campaignId = None\<rparr>) = 500
   \<and> rollDice (\<lambda>k n. 19) ''r2'' 2000 ''1d20+1'' ''Attack''
     (Some (fresh_install_state
        \<lparr>users := Some [\<lparr>user_id = ''u1'', username = ''mira''\<rparr>],
         rolls := Some (\<lparr>entry_id = ''r0'', timestamp = 500, r_userId = ''u1'',
                          userName = ''mira'', expression = ''d4'', label = ''oldest'',
                          result = 2, details = ''2'', crit = None, r_campaignId = None\<rparr>
                        # replicate 499
                            \<lparr>entry_id = ''r1'', timestamp = 1000, r_userId = ''u1'',
                             userName = ''mira'', expression = ''d6'', label = ''d6'',
                             result = 4, details = ''4'', crit = None,
                             r_campaignId = None\<rparr>),
         currentUserId := Some ''u1''\<rparr>))
   = Inr (\<lparr>roll_total = 21, roll_details = ''20+1'', roll_crit = Some Success\<rparr>,
          Some (fresh_install_state
        \<lparr>users := Some [\<lparr>user_id = ''u1'', username = ''mira''\<rparr>],
         rolls := Some (replicate 499
                            \<lparr>entry_id = ''r1'', timestamp = 1000, r_userId = ''u1'',
                             userName = ''mira'', expression = ''d6'', label = ''d6'',
                             result = 4, details = ''4'', crit = None,
                             r_campaignId = None\<rparr>
                        @ [\<lparr>entry_id = ''r2'', timestamp = 2000, r_userId = ''u1'',
                            userName = ''mira'', expression = ''1d20+1'', label = ''Attack'',
                            result = 21, details = ''20+1'', crit = Some Success,
                            r_campaignId = None\<rparr>]),
         currentUserId := Some ''u1''\<rparr>))
   \<and> length (replicate 499
                \<lparr>entry_id = ''r1'', timestamp = 1000, r_userId = ''u1'',
                 userName = ''mira'', expression = ''d6'', label = ''d6'',
                 result = 4, details = ''4'', crit = None, r_campaignId = None\<rparr>
              @ [\<lparr>entry_id = ''r2'', timestamp = 2000, r_userId = ''u1'',
                  userName = ''mira'', expression = ''1d20+1'', label = ''Attack'',
                  result = 21, details = ''20+1'', crit = Some Success,
                  r_campaignId = None\<rparr>]) = 500"
proof -
  let ?e0 = "\<lparr>entry_id = ''r0'', timestamp = 500, r_userId = ''u1'',
                userName = ''mira'', expression = ''d4'', label = ''oldest'',
                result = 2, details = ''2'', crit = None, r_campaignId = None\<rparr>"
  let ?e1 = "\<lparr>entry_id = ''r1'', timestamp = 1000, r_userId = ''u1'',
                         userName = ''mira'', expression = ''d6'', label = ''d6'',
                         result = 4, details = ''4'', crit = None, r_campaignId = None\<rparr>"
  let ?e2 = "\<lparr>entry_id = ''r2'', timestamp = 2000, r_userId = ''u1'',
                         userName = ''mira'', expression = ''1d20+1'', label = ''Attack'',
                         result = 21, details = ''20+1'', crit = Some Success,
                         r_campaignId = None\<rparr>"
  let ?res = "\<lparr>roll_total = 21, roll_details = ''20+1'', roll_crit = Some Success\<rparr>"
  let ?st = "fresh_install_state
        \<lparr>users := Some [\<lparr>user_id = ''u1'', username = ''mira''\<rparr>],
         rolls := Some [?e1], currentUserId := Some ''u1''\<rparr>"
  let ?full = "?e0 # replicate 499 ?e1"
  let ?st500 = "fresh_install_state
        \<lparr>users := Some [\<lparr>user_id = ''u1'', username = ''mira''\<rparr>],
         rolls := Some ?full, currentUserId := Some ''u1''\<rparr>"
  have p: "parseDiceExpression ''1d20+1'' = [Dice 1 20 1, Mod 1]"
    by code_simp
  have s: "show_int 20 = ''20''" "show_int 1 = ''1''"
    by code_simp+
  have res: "\<lparr>roll_total = running_total (roll_terms (\<lambda>k n. 19) (parseDiceExpression ''1d20+1'')),
              roll_details = concat (detailParts (roll_terms (\<lambda>k n. 19)
                               (parseDiceExpression ''1d20+1''))),
              roll_crit = current_crit (roll_terms (\<lambda>k n. 19) (parseDiceExpression ''1d20+1''))\<rparr>
             = ?res"
    by (simp add: p roll_terms_def s Let_def)
  have h: "currentUserId ?st = Some ''u1''" "''u1'' \<noteq> []"
    "rolls ?st = Some [?e1]" "length [?e1] \<le> 500"
    by simp_all
  have u: "users ?st \<noteq> None"
    by simp
  from rollDice_log_bounded [OF h, of "\<lambda>k n. 19" "''r2''" 2000 "''1d20+1''" "''Attack''"] u
  obtain res st' where a: "rollDice (\<lambda>k n. 19) ''r2'' 2000 ''1d20+1'' ''Attack'' (Some ?st)
      = Inr (res, st')"
    by blast
  have v: "rollDice (\<lambda>k n. 19) ''r2'' 2000 ''1d20+1'' ''Attack'' (Some ?st)
      = Inr (?res,
          Some (fresh_install_state
        \<lparr>users := Some [\<lparr>user_id = ''u1'', username = ''mira''\<rparr>],
         rolls := Some [?e1, ?e2], currentUserId := Some ''u1''\<rparr>))"
    by (simp add: rollDice_def Let_def p roll_terms_def s fresh_install_state_def log_entry_def)
  from a v have small: "rollDice (\<lambda>k n. 19) ''r2'' 2000 ''1d20+1'' ''Attack'' (Some ?st)
      = Inr (?res,
          Some (fresh_install_state
        \<lparr>users := Some [\<lparr>user_id = ''u1'', username = ''mira''\<rparr>],
         rolls := Some [?e1, ?e2], currentUserId := Some ''u1''\<rparr>))"
    by simp
  have len: "length ?full = 500"
    by simp
  have h': "currentUserId ?st500 = Some ''u1''" "''u1'' \<noteq> []"
    "rolls ?st500 = Some ?full" "length ?full \<le> 500"
    by simp_all
  have u': "users ?st500 \<noteq> None"
    by simp
  from rollDice_log_bounded [OF h', of "\<lambda>k n. 19" "''r2''" 2000 "''1d20+1''" "''Attack''"] u'
  obtain res' entry rs' where
    a': "rollDice (\<lambda>k n. 19) ''r2'' 2000 ''1d20+1'' ''Attack'' (Some ?st500)
           = Inr (res', Some (?st500\<lparr>rolls := Some rs'\<rparr>))"
    and l': "length rs' \<le> 500"
    and r': "rs' = (if length ?full < 500 then ?full @ [entry] else tl ?full @ [entry])"
    by blast
  from r' have tl': "rs' = replicate 499 ?e1 @ [entry]"
    by simp
  have logs: "rollDice (\<lambda>k n. 19) ''r2'' 2000 ''1d20+1'' ''Attack'' (Some ?st500)
      = Inr (?res, Some (?st500\<lparr>rolls := Some (drop (length ?full + 1 - 500)
          (?full @ [log_entry ''r2'' 2000 ''u1'' [\<lparr>user_id = ''u1'', username = ''mira''\<rparr>]
                      ''1d20+1'' ''Attack'' ?res ?st500]))\<rparr>))"
    using rollDice_logs [of ?st500 "''u1''" "[\<lparr>user_id = ''u1'', username = ''mira''\<rparr>]" ?full
        "\<lambda>k n. 19" "''r2''" 2000 "''1d20+1''" "''Attack''"]
    unfolding res by simp
  have ent: "log_entry ''r2'' 2000 ''u1'' [\<lparr>user_id = ''u1'', username = ''mira''\<rparr>]
               ''1d20+1'' ''Attack'' ?res ?st500 = ?e2"
    by (simp add: log_entry_def fresh_install_state_def)
  from a' logs have "rs' = drop (length ?full + 1 - 500) (?full @ [?e2])"
    unfolding ent by (simp add: fresh_install_state_def)
  with tl' have e: "entry = ?e2"
    by simp
  from a' logs have "res' = ?res"
    by simp
  with a' tl' e have big: "rollDice (\<lambda>k n. 19) ''r2'' 2000 ''1d20+1'' ''Attack'' (Some ?st500)
      = Inr (?res,
          Some (fresh_install_state
        \<lparr>users := Some [\<lparr>user_id = ''u1'', username = ''mira''\<rparr>],
         rolls := Some (replicate 499 ?e1 @ [?e2]), currentUserId := Some ''u1''\<rparr>))"
    by simp
  from l' tl' e have bound: "length (replicate 499 ?e1 @ [?e2]) = 500"
    by simp
  from small len big bound show ?thesis
    by (intro conjI)
qed

lemma roll_loop_crit_other:
  "\<not> (die_size = 20 \<and> count = 1) \<Longrightarrow>
     current_crit (fst (roll_loop rnd count die_size sign m (acc, rs))) = current_crit acc"
  by (induction m arbitrary: acc rs) (auto simp: Let_def)

lemma is_single_d20_iff: "is_single_d20 t \<longleftrightarrow> (\<exists>sign. t = Dice 1 20 sign)"
  by (cases t) auto

lemma roll_term_crit_other:
  "\<not> is_single_d20 t \<Longrightarrow> current_crit (roll_term rnd t acc) = current_crit acc"
proof (cases t)
  case (Dice count die_size sign)
  assume "\<not> is_single_d20 t"
  with Dice have "\<not> (die_size = 20 \<and> count = 1)" by simp
  from roll_loop_crit_other [OF this, of rnd sign "nat count" acc "[]"] Dice
  show ?thesis by (simp add: Let_def split_beta)
next
  case (Mod m)
  then show ?thesis by simp
qed

lemma roll_term_single_d20:
  "current_crit (roll_term rnd (Dice 1 20 sign) acc)
     = (if rnd (calls acc) 20 + 1 = 20 then Some Success
        else if rnd (calls acc) 20 + 1 = 1 then Some Failure
        else current_crit acc)"
  by (simp add: Let_def)

lemma foldl_crit_other:
  "list_all (\<lambda>t. \<not> is_single_d20 t) ts \<Longrightarrow>
     current_crit (foldl (\<lambda>a t. roll_term rnd t a) acc ts) = current_crit acc"
  by (induction ts arbitrary: acc) (simp_all add: roll_term_crit_other)

lemma roll_terms_no_single_d20:
  "list_all (\<lambda>t. \<not> is_single_d20 t) ts \<Longrightarrow> current_crit (roll_terms rnd ts) = None"
  by (simp add: roll_terms_def foldl_crit_other)

lemma roll_terms_last_single_d20:
  assumes "ts = pre @ Dice 1 20 sign # post" and "list_all (\<lambda>t. \<not> is_single_d20 t) post"
  shows "current_crit (roll_terms rnd ts)
           = (if rnd (calls (roll_terms rnd pre)) 20 + 1 = 20 then Some Success
              else if rnd (calls (roll_terms rnd pre)) 20 + 1 = 1 then Some Failure
              else current_crit (roll_terms rnd pre))"
proof -
  have "roll_terms rnd ts
          = foldl (\<lambda>a t. roll_term rnd t a)
              (roll_term rnd (Dice 1 20 sign) (roll_terms rnd pre)) post"
    by (simp add: roll_terms_def assms(1))
  then have "current_crit (roll_terms rnd ts)
          = current_crit (roll_term rnd (Dice 1 20 sign) (roll_terms rnd pre))"
    using assms(2) by (simp add: foldl_crit_other)
  then show ?thesis
    by (simp only: roll_term_single_d20)
qed

lemma roll_terms_crit_needs_single_d20:
  assumes "current_crit (roll_terms rnd ts) \<noteq> None"
  shows "\<exists>sign. Dice 1 20 sign \<in> set ts"
proof (rule ccontr)
  assume "\<not> (\<exists>sign. Dice 1 20 sign \<in> set ts)"
  then have "list_all (\<lambda>t. \<not> is_single_d20 t) ts"
    by (auto simp: list_all_iff is_single_d20_iff)
  then have "current_crit (roll_terms rnd ts) = None"
    by (rule roll_terms_no_single_d20)
  with assms show False by simp
qed

lemma rollDice_without_state:
  "rollDice rnd new_id now expr lbl None
     = Inr (\<lparr>roll_total = running_total (roll_terms rnd (parseDiceExpression expr)),
             roll_details = concat (detailParts (roll_terms rnd (parseDiceExpression expr))),
             roll_crit = current_crit (roll_terms rnd (parseDiceExpression expr))\<rparr>, None)"
  by (simp add: rollDice_def Let_def)

text \<open>
  Claim C10, as stated, at the expression \<^verbatim>\<open>1d20+1d20\<close> when the first die rolls 20
  and the second rolls 1: a term of exactly one d20 has rolled 20, and the flag
  returned is \<^verbatim>\<open>'failure'\<close>, because the later term overwrites the flag.
\<close>

theorem rollDice_two_d20_terms_counterexample:
  "parseDiceExpression ''1d20+1d20'' = [Dice 1 20 1, Dice 1 20 1]
   \<and> current_crit (roll_terms (\<lambda>k n. if k = 0 then 19 else 0) [Dice 1 20 1]) = Some Success
   \<and> rollDice (\<lambda>k n. if k = 0 then 19 else 0) ''r1'' 1000 ''1d20+1d20'' [] None
       = Inr (\<lparr>roll_total = 21, roll_details = ''201'', roll_crit = Some Failure\<rparr>, None)"
proof -
  have p: "parseDiceExpression ''1d20+1d20'' = [Dice 1 20 1, Dice 1 20 1]"
    by code_simp
  have s: "show_int 20 = ''20''" "show_int 1 = ''1''"
    by code_simp+
  show ?thesis
    by (simp add: rollDice_def Let_def p roll_terms_def s)
qed

text \<open>
  Claim C10, amended. The flag that \<open>rollDice\<close> returns is the one its pass over the
  parsed terms leaves. It is non-null only if the parsed expression has a dice term of
  count 1 and size 20; a term of any other count or size leaves the flag as it was. A
  term of exactly one d20 sets the flag to success when its die rolls 20, to failure
  when it rolls 1, and leaves it otherwise. So the flag is decided by the last such
  term of the expression whose die rolled 20 or 1; for an expression with a single such
  term it is success exactly when the die rolls 20, failure exactly when it rolls 1,
  and null otherwise.
\<close>

theorem rollDice_crit_flag:
  "(rollDice rnd new_id now expr lbl st_opt = Inr (res, st') \<longrightarrow>
      roll_crit res = current_crit (roll_terms rnd (parseDiceExpression expr)))
   \<and> (\<exists>res0. rollDice rnd new_id now expr lbl None = Inr (res0, None)
         \<and> roll_crit res0 = current_crit (roll_terms rnd (parseDiceExpression expr)))
   \<and> (current_crit (roll_terms rnd (parseDiceExpression expr)) \<noteq> None \<longrightarrow>
         (\<exists>sign. Dice 1 20 sign \<in> set (parseDiceExpression expr)))
   \<and> (\<not> is_single_d20 t \<longrightarrow> current_crit (roll_term rnd t acc) = current_crit acc)
   \<and> current_crit (roll_term rnd (Dice 1 20 sign) acc)
       = (if rnd (calls acc) 20 + 1 = 20 then Some Success
          else if rnd (calls acc) 20 + 1 = 1 then Some Failure
          else current_crit acc)
   \<and> (parseDiceExpression expr = pre @ Dice 1 20 sign # post
        \<and> list_all (\<lambda>t. \<not> is_single_d20 t) post \<longrightarrow>
        current_crit (roll_terms rnd (parseDiceExpression expr))
          = (if rnd (calls (roll_terms rnd pre)) 20 + 1 = 20 then Some Success
             else if rnd (calls (roll_terms rnd pre)) 20 + 1 = 1 then Some Failure
             else current_crit (roll_terms rnd pre)))
   \<and> (list_all (\<lambda>t. \<not> is_single_d20 t) pre \<longrightarrow> current_crit (roll_terms rnd pre) = None)"
proof -
  have 1: "roll_crit res = current_crit (roll_terms rnd (parseDiceExpression expr))"
    if "rollDice rnd new_id now expr lbl st_opt = Inr (res, st')"
    using rollDice_result [OF that] by simp
  have 2: "\<exists>res0. rollDice rnd new_id now expr lbl None = Inr (res0, None)
         \<and> roll_crit res0 = current_crit (roll_terms rnd (parseDiceExpression expr))"
    by (simp add: rollDice_without_state)
  have 3: "\<exists>sign. Dice 1 20 sign \<in> set (parseDiceExpression expr)"
    if "current_crit (roll_terms rnd (parseDiceExpression expr)) \<noteq> None"
    using that by (rule roll_terms_crit_needs_single_d20)
  have 4: "current_crit (roll_term rnd t acc) = current_crit acc" if "\<not> is_single_d20 t"
    using that by (rule roll_term_crit_other)
  note 5 = roll_term_single_d20 [of rnd sign acc]
  have 6: "current_crit (roll_terms rnd (parseDiceExpression expr))
          = (if rnd (calls (roll_terms rnd pre)) 20 + 1 = 20 then Some Success
             else if rnd (calls (roll_terms rnd pre)) 20 + 1 = 1 then Some Failure
             else current_crit (roll_terms rnd pre))"
    if "parseDiceExpression expr = pre @ Dice 1 20 sign # post
        \<and> list_all (\<lambda>t. \<not> is_single_d20 t) post"
    using that roll_terms_last_single_d20 by blast
  have 7: "current_crit (roll_terms rnd pre) = None"
    if "list_all (\<lambda>t. \<not> is_single_d20 t) pre"
    using that by (rule roll_terms_no_single_d20)
  from 1 2 3 4 5 6 7 show ?thesis by blast
qed

theorem rollDice_crit_flag_witness:
  "parseDiceExpression ''1d20+5'' = [] @ Dice 1 20 1 # [Mod 5]
   \<and> list_all (\<lambda>t. \<not> is_single_d20 t) [Mod 5]
   \<and> current_crit (roll_terms (\<lambda>k n. 19) (parseDiceExpression ''1d20+5'')) = Some Success
   \<and> current_crit (roll_terms (\<lambda>k n. 0) (parseDiceExpression ''1d20+5'')) = Some Failure
   \<and> current_crit (roll_terms (\<lambda>k n. 7) (parseDiceExpression ''1d20+5'')) = None"
proof -
  have p: "parseDiceExpression ''1d20+5'' = [] @ Dice 1 20 1 # [Mod 5]"
    by code_simp
  have q: "list_all (\<lambda>t. \<not> is_single_d20 t) [Mod 5]"
    by simp
  have n: "list_all (\<lambda>t. \<not> is_single_d20 t) []"
    by simp
  note last = rollDice_crit_flag [where expr = "''1d20+5''" and pre = "[]" and sign = 1
      and post = "[Mod 5]", THEN conjunct2, THEN conjunct2, THEN conjunct2, THEN conjunct2,
      THEN conjunct2, THEN conjunct1, rule_format, OF conjI [OF p q]]
  note none = rollDice_crit_flag [where pre = "[]", THEN conjunct2, THEN conjunct2,
      THEN conjunct2, THEN conjunct2, THEN conjunct2, THEN conjunct2, rule_format, OF n]
  have "current_crit (roll_terms (\<lambda>k n. 19) (parseDiceExpression ''1d20+5'')) = Some Success"
    using last [of "\<lambda>k n. 19"] by simp
  moreover
  have "current_crit (roll_terms (\<lambda>k n. 0) (parseDiceExpression ''1d20+5'')) = Some Failure"
    using last [of "\<lambda>k n. 0"] by simp
  moreover
  have "current_crit (roll_terms (\<lambda>k n. 7) (parseDiceExpression ''1d20+5'')) = None"
    using last [of "\<lambda>k n. 7"] none [of "\<lambda>k n. 7"] by simp
  ultimately show ?thesis
    using p q by simp
qed

end
